theory Spec2Isabelle
  imports Complex_Main
begin

section \<open>JavaScript values used by the extractor\<close>

text \<open>
  The repository holds two versions of the same script: \<^verbatim>\<open>src/index.js\<close>, which talks to
  the Jira REST API 2 (offset pagination of the search, changelog expanded inside each
  issue), and \<^verbatim>\<open>src/unnamed/part_000\<close>, which talks to the REST API 3 (token pagination of
  the search, a paginated changelog request per issue, retries). Definitions taken from
  the first carry the suffix \<open>_v2\<close>, definitions taken from the second the suffix \<open>_v3\<close>;
  code that is the same in both has no suffix.

  A JavaScript number that the script stores in a row is a whole number of days or
  minutes, or \<open>NaN\<close>. \<open>null\<close> and \<open>undefined\<close> are both \<open>None\<close> of an option type:
  every use in the script (\<open>!x\<close>, \<open>x || y\<close>, \<open>x ?? y\<close>, \<open>Array.join\<close>) treats the two alike.
\<close>

datatype jsnum = Num int | NaN

datatype jsval = Null | Str string | Number jsnum

fun truthy :: "jsval \<Rightarrow> bool" where
  "truthy Null = False"
| "truthy (Str s) = (s \<noteq> [])"
| "truthy (Number (Num n)) = (n \<noteq> 0)"
| "truthy (Number NaN) = False"

definition js_or :: "jsval \<Rightarrow> jsval \<Rightarrow> jsval" where
  \<comment> \<open>\<open>a || b\<close>\<close>
  "js_or a b = (if truthy a then a else b)"

definition js_nullish :: "jsval \<Rightarrow> jsval \<Rightarrow> jsval" where
  \<comment> \<open>\<open>a ?? b\<close>\<close>
  "js_nullish a b = (if a = Null then b else a)"

definition of_str :: "string option \<Rightarrow> jsval" where
  "of_str v = (case v of None \<Rightarrow> Null | Some s \<Rightarrow> Str s)"

definition of_num :: "jsnum option \<Rightarrow> jsval" where
  "of_num v = (case v of None \<Rightarrow> Null | Some n \<Rightarrow> Number n)"

definition truthy_str :: "string option \<Rightarrow> bool" where
  \<comment> \<open>truthiness of a value that is a string, \<open>null\<close> or \<open>undefined\<close>\<close>
  "truthy_str v = truthy (of_str v)"

definition digit_char :: "nat \<Rightarrow> char" where
  "digit_char d = ''0123456789'' ! (d mod 10)"

fun show_nat :: "nat \<Rightarrow> string" where
  "show_nat n = (if n < 10 then [digit_char n] else show_nat (n div 10) @ [digit_char n])"

declare show_nat.simps [simp del]

definition show_int :: "int \<Rightarrow> string" where
  "show_int i = (if i < 0 then CHR ''-'' # show_nat (nat (- i)) else show_nat (nat i))"

fun to_string :: "jsval \<Rightarrow> string" where
  \<comment> \<open>\<open>String(v)\<close>, as a template literal applies it\<close>
  "to_string Null = ''null''"
| "to_string (Str s) = s"
| "to_string (Number (Num n)) = show_int n"
| "to_string (Number NaN) = ''NaN''"

definition join_element :: "jsval \<Rightarrow> string" where
  \<comment> \<open>\<open>Array.prototype.join\<close> writes \<open>null\<close> and \<open>undefined\<close> as the empty string\<close>
  "join_element v = (if v = Null then [] else to_string v)"

fun join_strings :: "string \<Rightarrow> string list \<Rightarrow> string" where
  "join_strings sep [] = []"
| "join_strings sep [x] = x"
| "join_strings sep (x # y # ys) = x @ sep @ join_strings sep (y # ys)"

definition array_join :: "string \<Rightarrow> jsval list \<Rightarrow> string" where
  "array_join sep vs = join_strings sep (map join_element vs)"

section \<open>The date library\<close>

text \<open>
  The script imports \<open>parseISO\<close>, \<open>differenceInMinutes\<close> and \<open>differenceInDays\<close> from the
  package date-fns, which is not part of the repository. A date is its time value in
  milliseconds since the epoch, \<open>None\<close> for an Invalid Date. The library runs in the time
  zone of the process: \<open>datelib\<close> holds \<open>parseISO\<close> (which reads a string without an offset
  in that zone) and \<open>tzOffset\<close>, the offset of the local clock from UTC at an instant, in
  milliseconds; both are parameters of every definition that uses the library. The two
  differences follow the package's contract. \<open>differenceInMinutes\<close> is the number of full
  minutes between the two instants. \<open>differenceInDays\<close> is the number of full days between
  the two dates as the local clock shows them: a full day runs from a local time on one
  day to the same local time on the next, so it lasts 23 or 25 hours across a clock change.
  In both the fraction is truncated toward zero, and the result is \<open>NaN\<close> when a date is
  invalid.
\<close>

type_synonym date = "int option"

record datelib =
  parseISO :: "string \<Rightarrow> date"
  tzOffset :: "int \<Rightarrow> int"

definition local_time :: "datelib \<Rightarrow> int \<Rightarrow> int" where
  \<comment> \<open>what the local clock shows at an instant, as milliseconds\<close>
  "local_time L t = t + tzOffset L t"

definition trunc_div :: "int \<Rightarrow> int \<Rightarrow> int" where
  \<comment> \<open>\<open>Math.trunc(a / b)\<close> for a positive \<open>b\<close>\<close>
  "trunc_div a b = sgn a * (\<bar>a\<bar> div b)"

definition differenceInMinutes :: "date \<Rightarrow> date \<Rightarrow> jsnum" where
  "differenceInMinutes l r =
     (case l of None \<Rightarrow> NaN
      | Some a \<Rightarrow> (case r of None \<Rightarrow> NaN | Some b \<Rightarrow> Num (trunc_div (a - b) 60000)))"

definition differenceInDays :: "datelib \<Rightarrow> date \<Rightarrow> date \<Rightarrow> jsnum" where
  "differenceInDays L l r =
     (case l of None \<Rightarrow> NaN
      | Some a \<Rightarrow> (case r of None \<Rightarrow> NaN
                  | Some b \<Rightarrow> Num (trunc_div (local_time L a - local_time L b) 86400000)))"

definition date_le :: "date \<Rightarrow> date \<Rightarrow> bool" where
  \<comment> \<open>\<open>a <= b\<close> on Date objects: false when either time value is \<open>NaN\<close>\<close>
  "date_le l r = (case l of None \<Rightarrow> False
                  | Some a \<Rightarrow> (case r of None \<Rightarrow> False | Some b \<Rightarrow> a \<le> b))"

definition date_valid :: "date \<Rightarrow> bool" where
  \<comment> \<open>\<open>!isNaN(d)\<close>\<close>
  "date_valid d = (d \<noteq> None)"

section \<open>Configuration and data\<close>

text \<open>
  The constants at the head of the script (the two status names, the end date, the switch
  \<open>useCreatedDate\<close>) are a record, so that the properties hold for every configuration;
  \<open>config_v2\<close> and \<open>config_v3\<close> are the values the two files set. The data are the JSON
  of the Jira API as the script reads it: an entry of a changelog has its timestamp
  \<open>created\<close> and its \<open>items\<close>, an item the name of the changed \<open>field\<close> and the new
  value \<open>toString\<close>; of an issue the script reads the \<open>key\<close> and, under \<open>fields\<close>, the
  summary, the names of the priority and of the status, the created date, the display name
  of the assignee and one custom field, each of which may be missing. A \<open>row\<close> is the
  object pushed to \<open>results\<close>, a column per key (\<open>saveResultsToCsv\<close> of
  \<^verbatim>\<open>src/unnamed/part_000\<close> reads no \<open>Affected Customers\<close>).
\<close>

record config =
  status1 :: string
  status2 :: string
  endDate :: string
  useCreatedDate :: bool

definition config_v2 :: config where
  "config_v2 = \<lparr>status1 = ''Backlog'', status2 = ''In Progress'',
                 endDate = ''2025-01-01'', useCreatedDate = True\<rparr>"

definition config_v3 :: config where
  "config_v3 = \<lparr>status1 = ''01 To Write'', status2 = ''08 Blocked'',
                 endDate = ''2025-30-09'', useCreatedDate = True\<rparr>"

record item =
  field :: string
  toString :: string

record history =
  created :: string
  items :: "item list"

record issue =
  key :: string
  fields_summary :: "string option"
  fields_priority :: "string option"
  fields_status :: "string option"
  fields_created :: "string option"
  fields_assignee :: "string option"
  fields_customfield :: jsval
  changelog :: "history list"

record times =
  status1Time :: "string option"
  status2Time :: "string option"

record row =
  Issue_Key :: string
  Summary :: string
  Status :: string
  Priority :: string
  Start_Time :: "string option"
  Currently_in_Backlog_for :: "jsnum option"
  status2_Time :: "string option"
  Time_Spent_Minutes :: "jsnum option"
  Time_Spent_Days :: "jsnum option"
  Assignee :: string
  Affected_Customers :: jsval

section \<open>Extraction of the transition times\<close>

text \<open>
  The two nested \<open>for\<close> loops over the histories and their items
  (\<^verbatim>\<open>src/index.js\<close> lines 93 to 104, \<^verbatim>\<open>src/unnamed/part_000\<close> lines 197 to 208). The body
  of the inner loop is \<open>visit_item\<close>; the guards \<open>!status1Time\<close> and \<open>!status2Time\<close> are
  tests of truthiness, so an empty string counts as not yet recorded.
\<close>

definition visit_item :: "config \<Rightarrow> string \<Rightarrow> times \<Rightarrow> item \<Rightarrow> times" where
  "visit_item c ts t i =
     (if field i = ''status'' then
        (let t1 = (if toString i = status1 c \<and> \<not> truthy_str (status1Time t)
                   then t\<lparr>status1Time := Some ts\<rparr> else t)
         in (if toString i = status2 c \<and> \<not> truthy_str (status2Time t1)
             then t1\<lparr>status2Time := Some ts\<rparr> else t1))
      else t)"

definition visit_history :: "config \<Rightarrow> times \<Rightarrow> history \<Rightarrow> times" where
  "visit_history c t h = foldl (visit_item c (created h)) t (items h)"

definition scan_histories :: "config \<Rightarrow> times \<Rightarrow> history list \<Rightarrow> times" where
  "scan_histories c t hs = foldl (visit_history c) t hs"

definition extract_times :: "config \<Rightarrow> history list \<Rightarrow> times" where
  "extract_times c hs = scan_histories c \<lparr>status1Time = None, status2Time = None\<rparr> hs"

section \<open>Processing one issue\<close>

definition escape_quotes :: "string \<Rightarrow> string" where
  \<comment> \<open>\<open>s.replace(/"/g, '""')\<close>\<close>
  "escape_quotes s = concat (map (\<lambda>ch. if ch = CHR 0x22 then [CHR 0x22, CHR 0x22] else [ch]) s)"

definition start_time :: "config \<Rightarrow> string option \<Rightarrow> times \<Rightarrow> string option" where
  \<comment> \<open>\<open>startTime\<close> after the assignment guarded by \<open>!useCreatedDate && status1Time\<close>\<close>
  "start_time c createdDate t =
     (if \<not> useCreatedDate c \<and> truthy_str (status1Time t) then status1Time t
      else if useCreatedDate c then createdDate else None)"

definition backlog_days :: "datelib \<Rightarrow> int \<Rightarrow> string option \<Rightarrow> jsnum option" where
  \<comment> \<open>\<open>startTime ? differenceInDays(now, parseISO(startTime)) : null\<close>, the same expression
      at \<^verbatim>\<open>src/index.js\<close> line 112 and \<^verbatim>\<open>src/unnamed/part_000\<close> line 216\<close>
  "backlog_days L now startTime =
     (case startTime of
        None \<Rightarrow> None
      | Some s \<Rightarrow> if s \<noteq> [] then Some (differenceInDays L (Some now) (parseISO L s)) else None)"

definition time_spent_v2 ::
  "datelib \<Rightarrow> config \<Rightarrow> string option \<Rightarrow> string option \<Rightarrow> jsnum option \<times> jsnum option" where
  \<comment> \<open>\<^verbatim>\<open>src/index.js\<close> lines 117 to 128: the pair (timeSpentMinutes, timeSpentDays)\<close>
  "time_spent_v2 L c startTime s2Time =
     (case startTime of
        None \<Rightarrow> (None, None)
      | Some s \<Rightarrow>
          (case s2Time of
             None \<Rightarrow> (None, None)
           | Some s2 \<Rightarrow>
               if s \<noteq> [] \<and> s2 \<noteq> [] then
                 (let startDt = parseISO L s; status2Dt = parseISO L s2 in
                  if date_le status2Dt (parseISO L (endDate c))
                  then (Some (differenceInMinutes status2Dt startDt),
                        Some (differenceInDays L status2Dt startDt))
                  else (None, None))
               else (None, None)))"

definition time_spent_v3 ::
  "datelib \<Rightarrow> config \<Rightarrow> string option \<Rightarrow> string option \<Rightarrow> jsnum option \<times> jsnum option" where
  \<comment> \<open>the block of \<^verbatim>\<open>src/unnamed/part_000\<close> lines 219 to 230, as a function of the
      values of \<open>startTime\<close> and \<open>status2Time\<close> on its entry\<close>
  "time_spent_v3 L c startTime s2Time =
     (case startTime of
        None \<Rightarrow> (None, None)
      | Some s \<Rightarrow>
          (case s2Time of
             None \<Rightarrow> (None, None)
           | Some s2 \<Rightarrow>
               if s \<noteq> [] \<and> s2 \<noteq> [] then
                 (let startDt = parseISO L s; status2Dt = parseISO L s2;
                      endDt = parseISO L (endDate c) in
                  if date_valid startDt \<and> date_valid status2Dt \<and> date_valid endDt
                     \<and> date_le status2Dt endDt
                  then (Some (differenceInMinutes status2Dt startDt),
                        Some (differenceInDays L status2Dt startDt))
                  else (None, None))
               else (None, None)))"

definition process_issue_v2 ::
  "datelib \<Rightarrow> config \<Rightarrow> int \<Rightarrow> issue \<Rightarrow> row" where
  \<comment> \<open>the body of the loop over the issues of a page, \<^verbatim>\<open>src/index.js\<close> lines 73 to 146;
      the histories are those expanded into the issue\<close>
  "process_issue_v2 L c now i =
     (let t = extract_times c (changelog i);
          startTime = start_time c (fields_created i) t;
          spent = time_spent_v2 L c startTime (status2Time t)
      in \<lparr>Issue_Key = key i,
          Summary = (case fields_summary i of None \<Rightarrow> [] | Some s \<Rightarrow> escape_quotes s),
          Status = (case fields_status i of None \<Rightarrow> ''Unknown'' | Some s \<Rightarrow> s),
          Priority = (case fields_priority i of None \<Rightarrow> ''Unknown'' | Some s \<Rightarrow> s),
          Start_Time = startTime,
          Currently_in_Backlog_for = backlog_days L now startTime,
          status2_Time = status2Time t,
          Time_Spent_Minutes = fst spent,
          Time_Spent_Days = snd spent,
          Assignee = (case fields_assignee i of None \<Rightarrow> ''Unassigned'' | Some s \<Rightarrow> s),
          Affected_Customers = js_or (fields_customfield i) (Str ''N/A'')\<rparr>)"

section \<open>The average and the CSV text\<close>

text \<open>
  The quotient of two JavaScript numbers is taken exactly, as a real number; \<open>NaN\<close>
  stays apart.
\<close>

datatype jsreal = Real real | RealNaN

definition days_or_zero :: "jsnum option \<Rightarrow> int" where
  \<comment> \<open>\<open>result['Time Spent (Days)'] || 0\<close>\<close>
  "days_or_zero v = (case v of Some (Num n) \<Rightarrow> n | _ \<Rightarrow> 0)"

definition calculateAverageTimeSpentDays_v2 :: "row list \<Rightarrow> jsreal" where
  \<comment> \<open>\<^verbatim>\<open>src/index.js\<close> lines 154 to 158\<close>
  "calculateAverageTimeSpentDays_v2 results =
     (if length results = 0 then Real 0
      else (let totalDays = foldl (\<lambda>sum result. sum + days_or_zero (Time_Spent_Days result)) 0 results
            in Real (of_int totalDays / of_nat (length results))))"

definition js_add :: "jsnum \<Rightarrow> jsnum \<Rightarrow> jsnum" where
  "js_add a b = (case a of NaN \<Rightarrow> NaN | Num x \<Rightarrow> (case b of NaN \<Rightarrow> NaN | Num y \<Rightarrow> Num (x + y)))"

definition calculateAverageTimeSpentDays_v3 :: "row list \<Rightarrow> jsreal" where
  \<comment> \<open>\<^verbatim>\<open>src/unnamed/part_000\<close> lines 254 to 259; \<open>typeof v === 'number'\<close> keeps numbers and
      \<open>NaN\<close>\<close>
  "calculateAverageTimeSpentDays_v3 results =
     (let valid = List.map_filter (\<lambda>v. v) (map Time_Spent_Days results) in
      if length valid = 0 then Real 0
      else (case foldl js_add (Num 0) valid of
              NaN \<Rightarrow> RealNaN
            | Num s \<Rightarrow> Real (of_int s / of_nat (length valid))))"

definition csv_header_v2 :: "config \<Rightarrow> jsval list" where
  "csv_header_v2 c =
     map Str [''Issue Key'', ''Summary'', ''Status'', ''Priority'', ''Start Time'',
              ''Currently in Backlog for'', status2 c @ '' Time'', ''Time Spent (Minutes)'',
              ''Time Spent (Days)'', ''Assignee'', ''Affected Customers'']"

definition csv_cells_v2 :: "row \<Rightarrow> jsval list" where
  "csv_cells_v2 result =
     [Str (Issue_Key result),
      Str ([CHR 0x22] @ to_string (js_or (Str (Summary result)) (Str [])) @ [CHR 0x22]),
      js_or (Str (Status result)) (Str []),
      js_or (Str (Priority result)) (Str []),
      js_or (of_str (Start_Time result)) (Str []),
      js_or (of_num (Currently_in_Backlog_for result)) (Str []),
      js_or (of_str (status2_Time result)) (Str []),
      js_or (of_num (Time_Spent_Minutes result)) (Str []),
      js_or (of_num (Time_Spent_Days result)) (Str []),
      js_or (Str (Assignee result)) (Str []),
      js_or (Affected_Customers result) (Str [])]"

definition csv_text_v2 :: "config \<Rightarrow> row list \<Rightarrow> string" where
  \<comment> \<open>\<open>csvData\<close> of \<open>saveResultsToCsv\<close>, \<^verbatim>\<open>src/index.js\<close> lines 161 to 176\<close>
  "csv_text_v2 c results =
     join_strings [CHR 0x0A] (map (array_join '','') (csv_header_v2 c # map csv_cells_v2 results))"

definition csv_header_v3 :: "config \<Rightarrow> jsval list" where
  "csv_header_v3 c =
     map Str [''Issue Key'', ''Summary'', ''Status'', ''Priority'', ''Start Time'',
              ''Currently in Backlog for'', status2 c @ '' Time'', ''Time Spent (Minutes)'',
              ''Time Spent (Days)'', ''Assignee'']"

definition csv_cells_v3 :: "row \<Rightarrow> jsval list" where
  "csv_cells_v3 r =
     [js_nullish (Str (Issue_Key r)) (Str []),
      Str ([CHR 0x22] @ to_string (js_nullish (Str (Summary r)) (Str [])) @ [CHR 0x22]),
      js_nullish (Str (Status r)) (Str []),
      js_nullish (Str (Priority r)) (Str []),
      js_nullish (of_str (Start_Time r)) (Str []),
      js_nullish (of_num (Currently_in_Backlog_for r)) (Str []),
      js_nullish (of_str (status2_Time r)) (Str []),
      js_nullish (of_num (Time_Spent_Minutes r)) (Str []),
      js_nullish (of_num (Time_Spent_Days r)) (Str []),
      js_nullish (Str (Assignee r)) (Str [])]"

definition csv_text_v3 :: "config \<Rightarrow> row list \<Rightarrow> string" where
  \<comment> \<open>\<open>csv\<close> of \<open>saveResultsToCsv\<close>, \<^verbatim>\<open>src/unnamed/part_000\<close> lines 262 to 288\<close>
  "csv_text_v3 c results =
     join_strings [CHR 0x0A] (map (array_join '','') (csv_header_v3 c # map csv_cells_v3 results))"

section \<open>The server, the trace of a run, and retries\<close>

text \<open>
  What the script does to the outside is a trace of events: an HTTP request with its
  failure (\<open>None\<close> when it succeeded), a wait of some milliseconds before a retry, the
  average that \<open>main\<close> prints, and the write of the CSV file. An effectful function takes
  the trace so far and returns the extended trace with an error or a result. The world
  answers a request as a function of the time (the length of the trace so far) and of the
  request, and tells the wall-clock time that \<open>new Date()\<close> reads, as a function of the
  time and of the number of rows built so far.

  An error of a request carries \<open>err.response?.status\<close> and the number that \<open>Number\<close>
  makes of the \<open>retry-after\<close> header (\<open>None\<close> when the header is missing or empty). A
  \<open>ReferenceError\<close> is what the evaluation of an identifier that is not declared throws; it
  has no \<open>response\<close>.
\<close>

datatype err = Err (err_status: "int option") (err_retry_after: "jsnum option") | ReferenceError
  where "err_status ReferenceError = None" | "err_retry_after ReferenceError = None"

datatype request = Search_v2 nat | Search_v3 "string option" | Changelog string nat

datatype event = Call request "err option" | Wait int | Report jsreal | WriteFile string

record search_v2_data =
  total_v2 :: nat
  issues_v2 :: "issue list"

record search_v3_data =
  issues_v3 :: "issue list option"
  isLast_v3 :: bool
  nextPageToken_v3 :: "string option"

record changelog_data =
  cl_values :: "history list option"
  cl_maxResults :: "nat option"
  cl_total :: "nat option"
  cl_isLast :: "bool option"

record world =
  search_v2 :: "nat \<Rightarrow> nat \<Rightarrow> err + search_v2_data"
  search_v3 :: "nat \<Rightarrow> string option \<Rightarrow> err + search_v3_data"
  changelog_page :: "nat \<Rightarrow> string \<Rightarrow> nat \<Rightarrow> err + changelog_data"
  clock :: "nat \<Rightarrow> nat \<Rightarrow> int"

type_synonym 'a effect = "event list \<Rightarrow> event list \<times> (err + 'a)"

definition failure_of :: "err + 'a \<Rightarrow> err option" where
  "failure_of r = (case r of Inl e \<Rightarrow> Some e | Inr _ \<Rightarrow> None)"

definition http :: "request \<Rightarrow> (nat \<Rightarrow> err + 'a) \<Rightarrow> 'a effect" where
  \<comment> \<open>one \<open>axios\<close> request: the answer the world gives now, recorded in the trace\<close>
  "http req answer tr = (tr @ [Call req (failure_of (answer (length tr)))], answer (length tr))"

definition retryable :: "int option \<Rightarrow> bool" where
  \<comment> \<open>\<open>status === 429 || (status >= 500 && status <= 599)\<close>\<close>
  "retryable status =
     (case status of None \<Rightarrow> False | Some s \<Rightarrow> s = 429 \<or> (500 \<le> s \<and> s \<le> 599))"

definition wait_ms :: "int \<Rightarrow> nat \<Rightarrow> err \<Rightarrow> int" where
  \<comment> \<open>\<open>waitMs\<close> of \<open>withRetry\<close>: the header's seconds when they are a non-zero number,
      else \<open>baseDelayMs * Math.pow(2, attempt)\<close>\<close>
  "wait_ms baseDelayMs attempt e =
     (let delay = baseDelayMs * 2 ^ attempt in
      case err_retry_after e of
        None \<Rightarrow> delay
      | Some NaN \<Rightarrow> delay
      | Some (Num n) \<Rightarrow> if n * 1000 \<noteq> 0 then n * 1000 else delay)"

function withRetry_from :: "nat \<Rightarrow> 'a effect \<Rightarrow> nat \<Rightarrow> int \<Rightarrow> 'a effect" where
  \<comment> \<open>the \<open>while (true)\<close> of \<open>withRetry\<close>, \<^verbatim>\<open>src/unnamed/part_000\<close> lines 72 to 94, from the
      state \<open>attempt\<close>; \<open>printAxiosError\<close> only logs\<close>
  "withRetry_from attempt fn retries baseDelayMs tr =
     (case fn tr of
        (tr1, Inr v) \<Rightarrow> (tr1, Inr v)
      | (tr1, Inl e) \<Rightarrow>
          if attempt < retries \<and> retryable (err_status e)
          then withRetry_from (attempt + 1) fn retries baseDelayMs
                 (tr1 @ [Wait (wait_ms baseDelayMs attempt e)])
          else (tr1, Inl e))"
  by pat_completeness auto
termination
  by (relation "measure (\<lambda>(attempt, fn, retries, baseDelayMs, tr). retries - attempt)") auto

declare withRetry_from.simps [simp del]

definition withRetry :: "'a effect \<Rightarrow> 'a effect" where
  \<comment> \<open>every call of the script uses the defaults \<open>retries = 3\<close>, \<open>baseDelayMs = 500\<close>\<close>
  "withRetry fn = withRetry_from 0 fn 3 500"

section \<open>Fetching\<close>

definition fetchIssues_v2 :: "world \<Rightarrow> nat \<Rightarrow> search_v2_data effect" where
  \<comment> \<open>\<^verbatim>\<open>src/index.js\<close> lines 41 to 60: one request, no retry\<close>
  "fetchIssues_v2 w startAt = http (Search_v2 startAt) (\<lambda>t. search_v2 w t startAt)"

definition fetchIssues_v3 :: "world \<Rightarrow> string option \<Rightarrow> search_v3_data effect" where
  \<comment> \<open>\<^verbatim>\<open>src/unnamed/part_000\<close> lines 99 to 136\<close>
  "fetchIssues_v3 w nextPageToken =
     withRetry (http (Search_v3 nextPageToken) (\<lambda>t. search_v3 w t nextPageToken))"

partial_function (option) fetchIssueChangelog_from ::
  "world \<Rightarrow> string \<Rightarrow> nat \<Rightarrow> history list \<Rightarrow> event list
     \<Rightarrow> (event list \<times> (err + history list)) option" where
  \<comment> \<open>the \<open>while (true)\<close> of \<open>fetchIssueChangelog\<close>, \<^verbatim>\<open>src/unnamed/part_000\<close> lines 143 to
      165, from the state \<open>startAt\<close>, \<open>histories\<close>; \<open>None\<close> is a loop that never ends\<close>
  "fetchIssueChangelog_from w issueKey startAt histories tr =
     (case withRetry (http (Changelog issueKey startAt)
                        (\<lambda>t. changelog_page w t issueKey startAt)) tr of
        (tr1, Inl e) \<Rightarrow> Some (tr1, Inl e)
      | (tr1, Inr data) \<Rightarrow>
          (let vals = (case cl_values data of None \<Rightarrow> [] | Some vs \<Rightarrow> vs);
               histories1 = histories @ vals;
               pageSize = (case cl_maxResults data of None \<Rightarrow> length vals | Some m \<Rightarrow> m);
               total = (case cl_total data of None \<Rightarrow> startAt + pageSize | Some n \<Rightarrow> n);
               isLast = (case cl_isLast data of None \<Rightarrow> startAt + pageSize \<ge> total | Some b \<Rightarrow> b)
           in if isLast then Some (tr1, Inr histories1)
              else fetchIssueChangelog_from w issueKey
                     (startAt + (if pageSize \<noteq> 0 then pageSize else 100)) histories1 tr1))"

definition fetchIssueChangelog ::
  "world \<Rightarrow> string \<Rightarrow> event list \<Rightarrow> (event list \<times> (err + history list)) option" where
  "fetchIssueChangelog w issueKey tr = fetchIssueChangelog_from w issueKey 0 [] tr"

section \<open>The loops over the pages of issues, and \<open>main\<close>\<close>

text \<open>
  In \<^verbatim>\<open>src/index.js\<close> the changelog comes expanded inside each issue of a page. In
  \<^verbatim>\<open>src/unnamed/part_000\<close> the loop body would call \<open>fetchIssueChangelog\<close> at line 190, but
  it throws at line 187 for every issue (see \<open>process_issue_v3\<close>): a run of that file
  requests pages of the search until the first page that holds an issue, and ends there
  with the \<open>ReferenceError\<close>, which \<open>main\<close> catches and logs.
\<close>

fun process_page_v2 ::
  "datelib \<Rightarrow> config \<Rightarrow> world \<Rightarrow> nat \<Rightarrow> issue list \<Rightarrow> row list \<Rightarrow> row list" where
  \<comment> \<open>the loop over the issues of one page, \<^verbatim>\<open>src/index.js\<close> lines 73 to 146, at time \<open>t\<close>\<close>
  "process_page_v2 L c w t [] results = results"
| "process_page_v2 L c w t (i # rest) results =
     process_page_v2 L c w t rest
       (results @ [process_issue_v2 L c (clock w t (length results)) i])"

partial_function (option) getAllIssues_from_v2 ::
  "datelib \<Rightarrow> config \<Rightarrow> world \<Rightarrow> nat \<Rightarrow> row list \<Rightarrow> event list
     \<Rightarrow> (event list \<times> (err + row list)) option" where
  \<comment> \<open>the \<open>do ... while (startAt < total)\<close> of \<open>getAllIssues\<close>, \<^verbatim>\<open>src/index.js\<close> lines 67 to
      149, from the state \<open>startAt\<close>, \<open>results\<close>; \<open>None\<close> is a loop that never ends\<close>
  "getAllIssues_from_v2 L c w startAt results tr =
     (case fetchIssues_v2 w startAt tr of
        (tr1, Inl e) \<Rightarrow> Some (tr1, Inl e)
      | (tr1, Inr data) \<Rightarrow>
          (let results1 = process_page_v2 L c w (length tr1) (issues_v2 data) results
           in if startAt + 50 < total_v2 data
              then getAllIssues_from_v2 L c w (startAt + 50) results1 tr1
              else Some (tr1, Inr results1)))"

definition getAllIssues_v2 ::
  "datelib \<Rightarrow> config \<Rightarrow> world \<Rightarrow> event list \<Rightarrow> (event list \<times> (err + row list)) option" where
  "getAllIssues_v2 L c w tr = getAllIssues_from_v2 L c w 0 [] tr"

definition process_issue_v3 :: "issue \<Rightarrow> err + row" where
  \<comment> \<open>the body of the loop over the issues of a page, \<^verbatim>\<open>src/unnamed/part_000\<close> lines 180
      to 246. Lines 180 to 186 read fields of the issue. Line 187 evaluates the identifier
      \<open>AFFECTED_CUSTOMERS_FIELD_ID\<close>, which the file neither declares nor imports: the
      evaluation throws a \<open>ReferenceError\<close>, for every issue, before the changelog is
      fetched (line 190) and before a row is built. No statement of the body after line 187
      is ever executed.\<close>
  "process_issue_v3 i = Inl ReferenceError"

fun process_page_v3 :: "issue list \<Rightarrow> row list \<Rightarrow> err + row list" where
  \<comment> \<open>the loop over the issues of one page, \<^verbatim>\<open>src/unnamed/part_000\<close> lines 179 to 246\<close>
  "process_page_v3 [] results = Inr results"
| "process_page_v3 (i # rest) results =
     (case process_issue_v3 i of
        Inl e \<Rightarrow> Inl e
      | Inr r \<Rightarrow> process_page_v3 rest (results @ [r]))"

partial_function (option) getAllIssues_from_v3 ::
  "world \<Rightarrow> string option \<Rightarrow> row list \<Rightarrow> event list
     \<Rightarrow> (event list \<times> (err + row list)) option" where
  \<comment> \<open>the \<open>do ... while (nextPageToken)\<close> of \<open>getAllIssues\<close>, \<^verbatim>\<open>src/unnamed/part_000\<close>
      lines 175 to 249, from the state \<open>nextPageToken\<close>, \<open>results\<close>; \<open>None\<close> is a loop that
      never ends\<close>
  "getAllIssues_from_v3 w nextPageToken results tr =
     (case fetchIssues_v3 w nextPageToken tr of
        (tr1, Inl e) \<Rightarrow> Some (tr1, Inl e)
      | (tr1, Inr data) \<Rightarrow>
          (case process_page_v3 (case issues_v3 data of None \<Rightarrow> [] | Some is \<Rightarrow> is) results of
             Inl e \<Rightarrow> Some (tr1, Inl e)
           | Inr results1 \<Rightarrow>
               (if \<not> isLast_v3 data \<and> truthy_str (nextPageToken_v3 data)
                then getAllIssues_from_v3 w (nextPageToken_v3 data) results1 tr1
                else Some (tr1, Inr results1))))"

definition getAllIssues_v3 ::
  "world \<Rightarrow> event list \<Rightarrow> (event list \<times> (err + row list)) option" where
  "getAllIssues_v3 w tr = getAllIssues_from_v3 w None [] tr"

definition main_v2 :: "datelib \<Rightarrow> config \<Rightarrow> world \<Rightarrow> event list option" where
  \<comment> \<open>\<^verbatim>\<open>src/index.js\<close> lines 181 to 194: the file is written, then the average printed;
      the \<open>catch\<close> only logs. \<open>None\<close> is a run that never ends.\<close>
  "main_v2 L c w =
     (case getAllIssues_v2 L c w [] of
        None \<Rightarrow> None
      | Some (tr, Inl e) \<Rightarrow> Some tr
      | Some (tr, Inr results) \<Rightarrow>
          Some (tr @ [WriteFile (csv_text_v2 c results),
                      Report (calculateAverageTimeSpentDays_v2 results)]))"

definition main_v3 :: "config \<Rightarrow> world \<Rightarrow> event list option" where
  \<comment> \<open>\<^verbatim>\<open>src/unnamed/part_000\<close> lines 295 to 305: the average is printed, then the file
      written; the \<open>catch\<close> only logs\<close>
  "main_v3 c w =
     (case getAllIssues_v3 w [] of
        None \<Rightarrow> None
      | Some (tr, Inl e) \<Rightarrow> Some tr
      | Some (tr, Inr results) \<Rightarrow>
          Some (tr @ [Report (calculateAverageTimeSpentDays_v3 results),
                      WriteFile (csv_text_v3 c results)]))"

section \<open>Reference notions used to state the properties\<close>

definition enters :: "string \<Rightarrow> history \<Rightarrow> bool" where
  \<comment> \<open>the entry holds a change of the field \<open>status\<close> whose new value is \<open>st\<close>\<close>
  "enters st h = (\<exists>i \<in> set (items h). field i = ''status'' \<and> toString i = st)"

definition demo_history :: "history list" where
  \<comment> \<open>an issue that enters Backlog, moves to In Progress, and goes through both again\<close>
  "demo_history =
     [\<lparr>created = ''2024-01-02T00:00:00Z'', items = [\<lparr>field = ''assignee'', toString = ''Backlog''\<rparr>]\<rparr>,
      \<lparr>created = ''2024-01-03T00:00:00Z'', items = [\<lparr>field = ''status'', toString = ''Backlog''\<rparr>]\<rparr>,
      \<lparr>created = ''2024-01-10T00:00:00Z'', items = [\<lparr>field = ''status'', toString = ''In Progress''\<rparr>]\<rparr>,
      \<lparr>created = ''2024-01-12T00:00:00Z'', items = [\<lparr>field = ''status'', toString = ''Backlog''\<rparr>]\<rparr>,
      \<lparr>created = ''2024-01-20T00:00:00Z'', items = [\<lparr>field = ''status'', toString = ''In Progress''\<rparr>]\<rparr>]"

definition time_present :: "datelib \<Rightarrow> string option \<Rightarrow> bool" where
  \<comment> \<open>a time is present: a non-empty string that \<open>parseISO\<close> reads as a date. The
      specification treats a timestamp that does not parse as absent.\<close>
  "time_present L v = (case v of None \<Rightarrow> False | Some s \<Rightarrow> s \<noteq> [] \<and> parseISO L s \<noteq> None)"

definition within_cutoff :: "datelib \<Rightarrow> config \<Rightarrow> string option \<Rightarrow> bool" where
  \<comment> \<open>the time is at or before the end-date cutoff, both read as dates\<close>
  "within_cutoff L c v =
     (case v of None \<Rightarrow> False | Some s \<Rightarrow> date_le (parseISO L s) (parseISO L (endDate c)))"

definition is_number :: "jsnum option \<Rightarrow> bool" where
  \<comment> \<open>the computed field holds a number (neither \<open>null\<close> nor \<open>NaN\<close>)\<close>
  "is_number v = (case v of Some (Num n) \<Rightarrow> True | _ \<Rightarrow> False)"

definition sample_parseISO :: "string \<Rightarrow> date" where
  \<comment> \<open>\<open>parseISO\<close> on the strings of the examples (those without an offset read in UTC);
      any other string is taken as not a date\<close>
  "sample_parseISO = map_of
     [(''2024-01-01T00:00:00Z'', 1704067200000),
      (''2024-01-02T12:00:00Z'', 1704196800000),
      (''2024-01-05'', 1704412800000),
      (''2024-01-10T00:00:00Z'', 1704844800000),
      (''2024-03-30T12:00:00+01:00'', 1711796400000),
      (''2024-12-31'', 1735603200000),
      (''2025-01-01'', 1735689600000)]"

definition utc_lib :: datelib where
  \<comment> \<open>the library in a process whose time zone is UTC\<close>
  "utc_lib = \<lparr>parseISO = sample_parseISO, tzOffset = (\<lambda>t. 0)\<rparr>"

definition berlin_lib :: datelib where
  \<comment> \<open>the library in a process whose local clock is one hour ahead of UTC until
      2024-03-31T01:00:00Z and two hours ahead from then on\<close>
  "berlin_lib = \<lparr>parseISO = sample_parseISO,
                  tzOffset = (\<lambda>t. if t < 1711846800000 then 3600000 else 7200000)\<rparr>"

definition sample_issue :: issue where
  "sample_issue =
     \<lparr>key = ''MIS-1'', fields_summary = Some ''He said \"hi\"'', fields_priority = Some ''High'',
      fields_status = Some ''08 Blocked'', fields_created = Some ''2024-01-01T00:00:00Z'',
      fields_assignee = None, fields_customfield = Null,
      changelog = [\<lparr>created = ''2024-01-10T00:00:00Z'',
                     items = [\<lparr>field = ''status'', toString = ''08 Blocked''\<rparr>]\<rparr>]\<rparr>"

definition sample_config :: "string \<Rightarrow> config" where
  "sample_config cutoff = \<lparr>status1 = ''01 To Write'', status2 = ''08 Blocked'',
                             endDate = cutoff, useCreatedDate = True\<rparr>"


definition floor_days :: "int \<Rightarrow> int \<Rightarrow> int" where
  \<comment> \<open>the specification's formula: the floor of \<open>now - startTime\<close> in days\<close>
  "floor_days now start = \<lfloor>real_of_int (now - start) / 86400000\<rfloor>"

definition future_issue :: issue where
  \<comment> \<open>an issue created a day and a half after the time of the run\<close>
  "future_issue = sample_issue\<lparr>fields_created := Some ''2024-01-02T12:00:00Z'', changelog := []\<rparr>"

definition spring_issue :: issue where
  \<comment> \<open>an issue created at noon, local time, of the day before the clocks go forward\<close>
  "spring_issue = sample_issue\<lparr>fields_created := Some ''2024-03-30T12:00:00+01:00'', changelog := []\<rparr>"


text \<open>
  A reader of one quoted CSV field, as a CSV parser reads it: the field starts and ends
  with a double quote, and inside a double quote stands only doubled. It is not part of
  the script; it states what the doubling is for.
\<close>

fun unescape_quotes :: "string \<Rightarrow> string option" where
  "unescape_quotes [] = Some []"
| "unescape_quotes [ch] = (if ch = CHR 0x22 then None else Some [ch])"
| "unescape_quotes (ch # d # rest) =
     (if ch = CHR 0x22
      then (if d = CHR 0x22 then map_option ((#) ch) (unescape_quotes rest) else None)
      else map_option ((#) ch) (unescape_quotes (d # rest)))"

definition read_quoted_field :: "string \<Rightarrow> string option" where
  "read_quoted_field f =
     (case f of
        [] \<Rightarrow> None
      | ch # rest \<Rightarrow>
          if ch = CHR 0x22 \<and> rest \<noteq> [] \<and> last rest = CHR 0x22
          then unescape_quotes (butlast rest) else None)"

definition render_str :: "string option \<Rightarrow> string" where
  \<comment> \<open>a string or \<open>null\<close> as the CSV line shows it: unquoted, \<open>null\<close> as nothing\<close>
  "render_str v = (case v of None \<Rightarrow> [] | Some s \<Rightarrow> s)"

definition render_num_v2 :: "jsnum option \<Rightarrow> string" where
  \<comment> \<open>a number, \<open>NaN\<close> or \<open>null\<close> after \<open>|| ''\<close> and \<open>join\<close>\<close>
  "render_num_v2 v = (case v of Some (Num n) \<Rightarrow> if n = 0 then [] else show_int n | _ \<Rightarrow> [])"

definition render_num_v3 :: "jsnum option \<Rightarrow> string" where
  \<comment> \<open>a number, \<open>NaN\<close> or \<open>null\<close> after \<open>?? ''\<close> and \<open>join\<close>\<close>
  "render_num_v3 v = (case v of None \<Rightarrow> [] | Some (Num n) \<Rightarrow> show_int n | Some NaN \<Rightarrow> ''NaN'')"

definition quoted :: "string \<Rightarrow> string" where
  \<comment> \<open>the text between double quotes, every double quote of the text doubled\<close>
  "quoted s = [CHR 0x22] @ escape_quotes s @ [CHR 0x22]"

definition same_day_issue :: issue where
  \<comment> \<open>an issue that enters \<open>status2\<close> at the moment it is created\<close>
  "same_day_issue = sample_issue\<lparr>changelog :=
     [\<lparr>created = ''2024-01-01T00:00:00Z'', items = [\<lparr>field = ''status'', toString = ''08 Blocked''\<rparr>]\<rparr>]\<rparr>"


definition present_days :: "row list \<Rightarrow> int list" where
  \<comment> \<open>the \<open>timeSpentDays\<close> of the rows where it is a number\<close>
  "present_days rs =
     List.map_filter (\<lambda>r. case Time_Spent_Days r of Some (Num n) \<Rightarrow> Some n | _ \<Rightarrow> None) rs"

definition mean_of :: "int list \<Rightarrow> jsreal" where
  \<comment> \<open>the arithmetic mean, \<open>0\<close> of no value\<close>
  "mean_of ns = (if ns = [] then Real 0 else Real (of_int (sum_list ns) / of_nat (length ns)))"

definition malformed_issue :: issue where
  \<comment> \<open>an issue whose created date is not a date\<close>
  "malformed_issue = sample_issue\<lparr>fields_created := Some ''not-a-date''\<rparr>"


text \<open>
  How a trace of fetches reads. A request that succeeds ends its retries; a failed request
  followed by a wait is a retry, and at most \<open>R\<close> of them follow each other, each wait
  being the \<open>waitMs\<close> of its attempt; a failed request that nothing follows has aborted
  the fetching. \<open>has_fatal\<close> says that some failed request is not followed by the wait of
  a retry; \<open>waits\<close> and \<open>written\<close> list the waits and the files written.
\<close>

datatype outcome = Completed | Aborted | Malformed

fun fetch_log :: "nat \<Rightarrow> nat \<Rightarrow> event list \<Rightarrow> outcome" where
  "fetch_log R k [] = (if k = 0 then Completed else Malformed)"
| "fetch_log R k (Call req None # es) = fetch_log R 0 es"
| "fetch_log R k [Call req (Some e)] = Aborted"
| "fetch_log R k (Call req (Some e) # Wait d # es) =
     (if k < R \<and> retryable (err_status e) \<and> d = wait_ms 500 k e
      then fetch_log R (Suc k) es else Malformed)"
| "fetch_log R k (ev # es) = Malformed"

fun has_fatal :: "event list \<Rightarrow> bool" where
  "has_fatal [] = False"
| "has_fatal [Call req (Some e)] = True"
| "has_fatal (Call req (Some e) # Wait d # es) = has_fatal es"
| "has_fatal (Call req (Some e) # ev # es) = True"
| "has_fatal (ev # es) = has_fatal es"

definition outcome_of :: "err + 'a \<Rightarrow> outcome" where
  "outcome_of r = (case r of Inl e \<Rightarrow> Aborted | Inr v \<Rightarrow> Completed)"

fun waits :: "event list \<Rightarrow> int list" where
  "waits [] = []"
| "waits (Wait d # es) = d # waits es"
| "waits (ev # es) = waits es"

definition written :: "event list \<Rightarrow> string list" where
  "written tr = List.map_filter (\<lambda>ev. case ev of WriteFile s \<Rightarrow> Some s | _ \<Rightarrow> None) tr"


text \<open>
  A model of the Jira server, used to state what the pagination loops do against a server
  that behaves: it holds a list of issues and a changelog per issue, and serves
  consecutive pages of a fixed length (\<open>psize\<close> issues, \<open>hsize\<close> history entries per page),
  whatever length the script asks for; the changelog endpoint reports that length as
  \<open>maxResults\<close>. The page token of the search is the offset written in unary.
  \<open>failing_world\<close> answers every request with the same HTTP status.
\<close>

definition page_of :: "'a list \<Rightarrow> nat \<Rightarrow> nat \<Rightarrow> 'a list" where
  "page_of xs startAt psize = take psize (drop startAt xs)"

definition changelog_server ::
  "(string \<Rightarrow> history list) \<Rightarrow> nat \<Rightarrow> bool \<Rightarrow> nat \<Rightarrow> string \<Rightarrow> nat \<Rightarrow> err + changelog_data" where
  "changelog_server hist psize says_last t k startAt =
     Inr \<lparr>cl_values = Some (page_of (hist k) startAt psize),
          cl_maxResults = Some psize,
          cl_total = Some (length (hist k)),
          cl_isLast = (if says_last
                       then Some (startAt + length (page_of (hist k) startAt psize) \<ge> length (hist k))
                       else None)\<rparr>"

definition search_server_v2 :: "issue list \<Rightarrow> nat \<Rightarrow> nat \<Rightarrow> nat \<Rightarrow> err + search_v2_data" where
  "search_server_v2 iss psize t startAt =
     Inr \<lparr>total_v2 = length iss, issues_v2 = page_of iss startAt psize\<rparr>"

definition page_token :: "nat \<Rightarrow> string" where
  "page_token n = replicate n (CHR ''t'')"

definition token_offset :: "string option \<Rightarrow> nat" where
  "token_offset tok = (case tok of None \<Rightarrow> 0 | Some s \<Rightarrow> length s)"

definition search_server_v3 :: "issue list \<Rightarrow> nat \<Rightarrow> nat \<Rightarrow> string option \<Rightarrow> err + search_v3_data" where
  "search_server_v3 iss psize t tok =
     (let startAt = token_offset tok; last = (startAt + psize \<ge> length iss) in
      Inr \<lparr>issues_v3 = Some (page_of iss startAt psize),
           isLast_v3 = last,
           nextPageToken_v3 = (if last then None else Some (page_token (startAt + psize)))\<rparr>)"

definition jira_world ::
  "issue list \<Rightarrow> nat \<Rightarrow> (string \<Rightarrow> history list) \<Rightarrow> nat \<Rightarrow> bool \<Rightarrow> (nat \<Rightarrow> nat \<Rightarrow> int)
     \<Rightarrow> world" where
  "jira_world iss psize hist hsize says_last clk =
     \<lparr>search_v2 = search_server_v2 iss psize,
      search_v3 = search_server_v3 iss psize,
      changelog_page = changelog_server hist hsize says_last,
      clock = clk\<rparr>"

definition failing_world :: "int \<Rightarrow> world" where
  "failing_world status =
     \<lparr>search_v2 = (\<lambda>t startAt. Inl (Err (Some status) None)),
      search_v3 = (\<lambda>t tok. Inl (Err (Some status) None)),
      changelog_page = (\<lambda>t k startAt. Inl (Err (Some status) None)),
      clock = (\<lambda>t j. 1704844800000)\<rparr>"

definition flaky_world :: world where
  \<comment> \<open>a server that answers the request for the first page of the search (one issue of 60
      for \<^verbatim>\<open>src/index.js\<close>; an empty page with a token for \<^verbatim>\<open>src/unnamed/part_000\<close>) and
      fails on every request after it\<close>
  "flaky_world =
     \<lparr>search_v2 = (\<lambda>t startAt. if startAt = 0
                                 then Inr \<lparr>total_v2 = 60, issues_v2 = [sample_issue]\<rparr>
                                 else Inl (Err (Some 500) None)),
      search_v3 = (\<lambda>t tok. if tok = None
                             then Inr \<lparr>issues_v3 = Some [], isLast_v3 = False,
                                       nextPageToken_v3 = Some ''t''\<rparr>
                             else Inl (Err (Some 503) None)),
      changelog_page = (\<lambda>t k startAt. Inl (Err (Some 503) None)),
      clock = (\<lambda>t j. 1704844800000)\<rparr>"

definition sample_world :: world where
  "sample_world = jira_world [sample_issue] 50 (\<lambda>k. changelog sample_issue) 100 True
                    (\<lambda>t j. 1704844800000)"


definition ceil_div :: "nat \<Rightarrow> nat \<Rightarrow> nat" where
  \<comment> \<open>the specification's \<open>ceil(total / pageSize)\<close>\<close>
  "ceil_div n p = nat \<lceil>real n / real p\<rceil>"

definition page_count :: "nat \<Rightarrow> nat \<Rightarrow> nat" where
  \<comment> \<open>the pages a loop asks for: the loops ask for one page before they know the total\<close>
  "page_count n p = max 1 (ceil_div n p)"

definition three_issues :: "issue list" where
  "three_issues = [sample_issue, sample_issue\<lparr>key := ''MIS-2''\<rparr>, sample_issue\<lparr>key := ''MIS-3''\<rparr>]"

definition paged_world :: world where
  \<comment> \<open>three issues served two per page, five history entries each served two per page\<close>
  "paged_world = jira_world three_issues 2 (\<lambda>k. demo_history) 2 True (\<lambda>t j. 1704844800000)"

definition echo_world :: world where
  \<comment> \<open>a changelog endpoint that serves the five entries two per page, reports the length
      asked for (100) as \<open>maxResults\<close>, and sends no \<open>isLast\<close>\<close>
  "echo_world =
     \<lparr>search_v2 = search_server_v2 [] 50,
      search_v3 = search_server_v3 [] 50,
      changelog_page = (\<lambda>t k startAt.
         Inr \<lparr>cl_values = Some (page_of demo_history startAt 2), cl_maxResults = Some 100,
              cl_total = Some 5, cl_isLast = None\<rparr>),
      clock = (\<lambda>t j. 1704844800000)\<rparr>"

definition empty_world :: world where
  \<comment> \<open>a server with no issue and no history entry\<close>
  "empty_world = jira_world [] 50 (\<lambda>k. []) 100 True (\<lambda>t j. 1704844800000)"

definition malformed_world :: world where
  \<comment> \<open>a server whose one issue has a created date that is not a date\<close>
  "malformed_world = jira_world [malformed_issue] 50 (\<lambda>k. changelog malformed_issue) 100 True
                       (\<lambda>t j. 1704844800000)"


text \<open>
  The state in which a loop over the pages starts its iteration number \<open>n + 1\<close>: the
  offset or page token, the rows so far and the trace so far; \<open>None\<close> when the loop has
  ended before. A run reaches a request exactly when some such state asks for it.
\<close>

fun state_after_v2 ::
  "datelib \<Rightarrow> config \<Rightarrow> world \<Rightarrow> nat \<Rightarrow> (nat \<times> row list \<times> event list) option" where
  "state_after_v2 L c w 0 = Some (0, [], [])"
| "state_after_v2 L c w (Suc n) =
     (case state_after_v2 L c w n of
        None \<Rightarrow> None
      | Some (startAt, results, tr) \<Rightarrow>
          (case fetchIssues_v2 w startAt tr of
             (tr1, Inl e) \<Rightarrow> None
           | (tr1, Inr data) \<Rightarrow>
               if startAt + 50 < total_v2 data
               then Some (startAt + 50,
                          process_page_v2 L c w (length tr1) (issues_v2 data) results, tr1)
               else None))"

fun state_after_v3 ::
  "world \<Rightarrow> nat \<Rightarrow> (string option \<times> row list \<times> event list) option" where
  "state_after_v3 w 0 = Some (None, [], [])"
| "state_after_v3 w (Suc n) =
     (case state_after_v3 w n of
        None \<Rightarrow> None
      | Some (nextPageToken, results, tr) \<Rightarrow>
          (case fetchIssues_v3 w nextPageToken tr of
             (tr1, Inl e) \<Rightarrow> None
           | (tr1, Inr data) \<Rightarrow>
               (case process_page_v3 (case issues_v3 data of None \<Rightarrow> [] | Some is \<Rightarrow> is) results of
                  Inl e \<Rightarrow> None
                | Inr results1 \<Rightarrow>
                    if \<not> isLast_v3 data \<and> truthy_str (nextPageToken_v3 data)
                    then Some (nextPageToken_v3 data, results1, tr1)
                    else None)))"


text \<open>
  The CSV file as a reader sees it: the line of the column names, then, each after a line
  feed, the line of a row, its fields separated by commas.
\<close>

definition csv_lines :: "string \<Rightarrow> string list \<Rightarrow> string" where
  "csv_lines h ls = h @ concat (map (\<lambda>l. CHR 0x0A # l) ls)"

definition header_line_v2 :: "config \<Rightarrow> string" where
  "header_line_v2 c =
     ''Issue Key,Summary,Status,Priority,Start Time,Currently in Backlog for,'' @ status2 c
     @ '' Time,Time Spent (Minutes),Time Spent (Days),Assignee,Affected Customers''"

definition header_line_v3 :: "config \<Rightarrow> string" where
  "header_line_v3 c =
     ''Issue Key,Summary,Status,Priority,Start Time,Currently in Backlog for,'' @ status2 c
     @ '' Time,Time Spent (Minutes),Time Spent (Days),Assignee''"

definition render_val_v2 :: "jsval \<Rightarrow> string" where
  \<comment> \<open>any value after \<open>|| ''\<close> and \<open>join\<close>\<close>
  "render_val_v2 v = (if truthy v then to_string v else [])"

definition row_line_v2 :: "row \<Rightarrow> string" where
  "row_line_v2 r =
     Issue_Key r @ '','' @ [CHR 0x22] @ Summary r @ [CHR 0x22] @ '','' @ Status r @ '',''
     @ Priority r @ '','' @ render_str (Start_Time r) @ '',''
     @ render_num_v2 (Currently_in_Backlog_for r) @ '','' @ render_str (status2_Time r) @ '',''
     @ render_num_v2 (Time_Spent_Minutes r) @ '','' @ render_num_v2 (Time_Spent_Days r) @ '',''
     @ Assignee r @ '','' @ render_val_v2 (Affected_Customers r)"

definition row_line_v3 :: "row \<Rightarrow> string" where
  "row_line_v3 r =
     Issue_Key r @ '','' @ [CHR 0x22] @ Summary r @ [CHR 0x22] @ '','' @ Status r @ '',''
     @ Priority r @ '','' @ render_str (Start_Time r) @ '',''
     @ render_num_v3 (Currently_in_Backlog_for r) @ '','' @ render_str (status2_Time r) @ '',''
     @ render_num_v3 (Time_Spent_Minutes r) @ '','' @ render_num_v3 (Time_Spent_Days r) @ '',''
     @ Assignee r"

definition issue_row_v2 :: "datelib \<Rightarrow> config \<Rightarrow> row \<Rightarrow> bool" where
  \<comment> \<open>the row is the one that \<^verbatim>\<open>src/index.js\<close> builds of some issue at some time\<close>
  "issue_row_v2 L c r = (\<exists>now i. r = process_issue_v2 L c now i)"

definition zero_row :: row where
  \<comment> \<open>a row whose three computed numbers are \<open>0\<close>\<close>
  "zero_row =
     \<lparr>Issue_Key = ''MIS-1'', Summary = ''He said \"\"hi\"\"'', Status = ''08 Blocked'',
      Priority = ''High'', Start_Time = Some ''2024-01-01T00:00:00Z'',
      Currently_in_Backlog_for = Some (Num 0), status2_Time = Some ''2024-01-01T00:00:00Z'',
      Time_Spent_Minutes = Some (Num 0), Time_Spent_Days = Some (Num 0),
      Assignee = ''Unassigned'', Affected_Customers = Str ''N/A''\<rparr>"

definition zero_to_absent :: "jsnum option \<Rightarrow> jsnum option" where
  "zero_to_absent v = (if v = Some (Num 0) then None else v)"

definition zeros_absent :: "row \<Rightarrow> row" where
  \<comment> \<open>the row with every numeric field that is \<open>0\<close> made absent\<close>
  "zeros_absent r =
     r\<lparr>Currently_in_Backlog_for := zero_to_absent (Currently_in_Backlog_for r),
       Time_Spent_Minutes := zero_to_absent (Time_Spent_Minutes r),
       Time_Spent_Days := zero_to_absent (Time_Spent_Days r)\<rparr>"


section \<open>First entry into each status\<close>

lemma truthy_str_simps [simp]:
  "truthy_str None = False" "truthy_str (Some s) = (s \<noteq> [])"
  by (simp_all add: truthy_str_def of_str_def)

lemma visit_item_status1:
  "status1Time (visit_item c ts t i) =
     (if field i = ''status'' \<and> toString i = status1 c \<and> \<not> truthy_str (status1Time t)
      then Some ts else status1Time t)"
  by (auto simp: visit_item_def Let_def)

lemma visit_item_status2:
  "status2Time (visit_item c ts t i) =
     (if field i = ''status'' \<and> toString i = status2 c \<and> \<not> truthy_str (status2Time t)
      then Some ts else status2Time t)"
  by (auto simp: visit_item_def Let_def)

lemma visit_history_status1:
  "status1Time (foldl (visit_item c ts) t is) =
     (if (\<exists>i \<in> set is. field i = ''status'' \<and> toString i = status1 c) \<and> \<not> truthy_str (status1Time t)
      then Some ts else status1Time t)"
  by (induction "is" arbitrary: t) (auto simp: visit_item_status1)

lemma visit_history_status2:
  "status2Time (foldl (visit_item c ts) t is) =
     (if (\<exists>i \<in> set is. field i = ''status'' \<and> toString i = status2 c) \<and> \<not> truthy_str (status2Time t)
      then Some ts else status2Time t)"
  by (induction "is" arbitrary: t) (auto simp: visit_item_status2)

lemma scan_status1:
  assumes "\<forall>h \<in> set hs. created h \<noteq> []"
  shows "status1Time (scan_histories c t hs) =
     (if truthy_str (status1Time t) then status1Time t
      else (case find (enters (status1 c)) hs of None \<Rightarrow> status1Time t | Some h \<Rightarrow> Some (created h)))"
  using assms unfolding scan_histories_def
  by (induction hs arbitrary: t) (auto simp: visit_history_def visit_history_status1 enters_def split: option.splits)

lemma scan_status2:
  assumes "\<forall>h \<in> set hs. created h \<noteq> []"
  shows "status2Time (scan_histories c t hs) =
     (if truthy_str (status2Time t) then status2Time t
      else (case find (enters (status2 c)) hs of None \<Rightarrow> status2Time t | Some h \<Rightarrow> Some (created h)))"
  using assms unfolding scan_histories_def
  by (induction hs arbitrary: t) (auto simp: visit_history_def visit_history_status2 enters_def split: option.splits)

lemma scan_keeps_status1:
  "truthy_str (status1Time t) \<Longrightarrow> status1Time (scan_histories c t hs) = status1Time t"
  unfolding scan_histories_def
  by (induction hs arbitrary: t) (auto simp: visit_history_def visit_history_status1)

lemma scan_keeps_status2:
  "truthy_str (status2Time t) \<Longrightarrow> status2Time (scan_histories c t hs) = status2Time t"
  unfolding scan_histories_def
  by (induction hs arbitrary: t) (auto simp: visit_history_def visit_history_status2)

lemma extract_times_append:
  "extract_times c (hs @ later) = scan_histories c (extract_times c hs) later"
  by (simp add: extract_times_def scan_histories_def)

text \<open>
  Claim C1. The histories are scanned in the order given. When every entry carries a
  timestamp (a non-empty string), the time recorded for \<open>status1\<close> is the timestamp of
  the first entry that holds a status change to \<open>status1\<close>, and likewise for \<open>status2\<close>;
  nothing is recorded for a status no entry enters. Once an entry has entered a status,
  whatever entries follow (the issue leaving and entering the status again, in any
  number) leave the recorded time as it is.
\<close>

theorem extract_times_first_entry:
  assumes "\<forall>h \<in> set hs. created h \<noteq> []"
  shows "status1Time (extract_times c hs) = map_option created (find (enters (status1 c)) hs)
       \<and> status2Time (extract_times c hs) = map_option created (find (enters (status2 c)) hs)
       \<and> (\<forall>later. find (enters (status1 c)) hs \<noteq> None \<longrightarrow>
             status1Time (extract_times c (hs @ later)) = status1Time (extract_times c hs))
       \<and> (\<forall>later. find (enters (status2 c)) hs \<noteq> None \<longrightarrow>
             status2Time (extract_times c (hs @ later)) = status2Time (extract_times c hs))"
proof -
  have s1: "status1Time (extract_times c hs) = map_option created (find (enters (status1 c)) hs)"
    using scan_status1 [OF assms, of c "\<lparr>status1Time = None, status2Time = None\<rparr>"]
    by (simp add: extract_times_def split: option.splits)
  have s2: "status2Time (extract_times c hs) = map_option created (find (enters (status2 c)) hs)"
    using scan_status2 [OF assms, of c "\<lparr>status1Time = None, status2Time = None\<rparr>"]
    by (simp add: extract_times_def split: option.splits)
  have k1: "status1Time (extract_times c (hs @ later)) = status1Time (extract_times c hs)"
    if "find (enters (status1 c)) hs \<noteq> None" for later
  proof -
    from that obtain h where h: "find (enters (status1 c)) hs = Some h" by auto
    then have "h \<in> set hs" by (auto simp: find_Some_iff)
    with assms have "created h \<noteq> []" by blast
    with s1 h have "truthy_str (status1Time (extract_times c hs))" by simp
    then show ?thesis by (simp add: extract_times_append scan_keeps_status1)
  qed
  have k2: "status2Time (extract_times c (hs @ later)) = status2Time (extract_times c hs)"
    if "find (enters (status2 c)) hs \<noteq> None" for later
  proof -
    from that obtain h where h: "find (enters (status2 c)) hs = Some h" by auto
    then have "h \<in> set hs" by (auto simp: find_Some_iff)
    with assms have "created h \<noteq> []" by blast
    with s2 h have "truthy_str (status2Time (extract_times c hs))" by simp
    then show ?thesis by (simp add: extract_times_append scan_keeps_status2)
  qed
  from s1 s2 k1 k2 show ?thesis by blast
qed

theorem extract_times_first_entry_witness:
  "status1Time (extract_times config_v2 demo_history) = Some ''2024-01-03T00:00:00Z''
   \<and> status2Time (extract_times config_v2 demo_history) = Some ''2024-01-10T00:00:00Z''
   \<and> status1Time (extract_times config_v2 (take 2 demo_history)) = Some ''2024-01-03T00:00:00Z''
   \<and> status2Time (extract_times config_v2 (take 3 demo_history)) = Some ''2024-01-10T00:00:00Z''"
proof -
  have h: "\<forall>h \<in> set demo_history. created h \<noteq> []"
    by (simp add: demo_history_def)
  have h2: "\<forall>h \<in> set (take 2 demo_history). created h \<noteq> []"
    by (simp add: demo_history_def)
  have h3: "\<forall>h \<in> set (take 3 demo_history). created h \<noteq> []"
    by (simp add: demo_history_def)
  show ?thesis
    using extract_times_first_entry [OF h, of config_v2]
      extract_times_first_entry [OF h2, of config_v2]
      extract_times_first_entry [OF h3, of config_v2]
    by (simp add: demo_history_def config_v2_def enters_def)
qed


section \<open>When the time spent is present\<close>

lemma is_number_simps [simp]:
  "is_number None = False" "is_number (Some NaN) = False" "is_number (Some (Num n)) = True"
  by (simp_all add: is_number_def)

lemma is_number_minutes [simp]: "is_number (Some (differenceInMinutes l r)) = (l \<noteq> None \<and> r \<noteq> None)"
  by (auto simp: differenceInMinutes_def split: option.splits)

lemma is_number_days [simp]: "is_number (Some (differenceInDays L l r)) = (l \<noteq> None \<and> r \<noteq> None)"
  by (auto simp: differenceInDays_def split: option.splits)

lemma date_le_valid: "date_le l r \<Longrightarrow> l \<noteq> None \<and> r \<noteq> None"
  by (auto simp: date_le_def split: option.splits)

lemma time_spent_v3_cases:
  "time_spent_v3 L c st s2 =
     (if time_present L st \<and> time_present L s2 \<and> within_cutoff L c s2
      then (Some (differenceInMinutes (parseISO L (the s2)) (parseISO L (the st))),
            Some (differenceInDays L (parseISO L (the s2)) (parseISO L (the st))))
      else (None, None))"
  by (auto simp: time_spent_v3_def time_present_def within_cutoff_def date_valid_def Let_def
           dest: date_le_valid split: option.splits)

lemma time_spent_v2_cases:
  "time_spent_v2 L c st s2 =
     (if truthy_str st \<and> truthy_str s2 \<and> within_cutoff L c s2
      then (Some (differenceInMinutes (parseISO L (the s2)) (parseISO L (the st))),
            Some (differenceInDays L (parseISO L (the s2)) (parseISO L (the st))))
      else (None, None))"
  by (auto simp: time_spent_v2_def within_cutoff_def Let_def truthy_str_def of_str_def
           split: option.splits)

lemma row_v2_fields [simp]:
  "Time_Spent_Minutes (process_issue_v2 L c now i) = fst (time_spent_v2 L c (Start_Time (process_issue_v2 L c now i)) (status2_Time (process_issue_v2 L c now i)))"
  "Time_Spent_Days (process_issue_v2 L c now i) = snd (time_spent_v2 L c (Start_Time (process_issue_v2 L c now i)) (status2_Time (process_issue_v2 L c now i)))"
  "Currently_in_Backlog_for (process_issue_v2 L c now i) = backlog_days L now (Start_Time (process_issue_v2 L c now i))"
  by (simp_all add: process_issue_v2_def Let_def)

text \<open>
  The block of \<^verbatim>\<open>src/unnamed/part_000\<close> (lines 219 to 230) does what the specification says,
  a timestamp that does not parse counting as absent: both fields are numbers when the
  start time and the time in \<open>status2\<close> are present and the latter is at or before the
  cutoff, and both are \<open>null\<close> in every other case.
\<close>

lemma time_spent_v3_present_iff:
  "(is_number (fst (time_spent_v3 L c st s2)) \<longleftrightarrow>
      time_present L st \<and> time_present L s2 \<and> within_cutoff L c s2)
   \<and> (is_number (snd (time_spent_v3 L c st s2)) \<longleftrightarrow> is_number (fst (time_spent_v3 L c st s2)))
   \<and> (\<not> is_number (fst (time_spent_v3 L c st s2)) \<longrightarrow> time_spent_v3 L c st s2 = (None, None))"
  by (auto simp: time_spent_v3_cases time_present_def split: option.splits)

text \<open>
  The block of \<^verbatim>\<open>src/index.js\<close> (lines 117 to 128) has no test for a date that does not
  parse. Its fields are numbers in the same cases; in the other cases they are \<open>null\<close>,
  except that a start time that is given and does not parse leaves \<open>NaN\<close> in both when
  the time in \<open>status2\<close> is within the cutoff.
\<close>

lemma time_spent_v2_present_iff:
  "(is_number (fst (time_spent_v2 L c st s2)) \<longleftrightarrow>
      time_present L st \<and> time_present L s2 \<and> within_cutoff L c s2)
   \<and> (is_number (snd (time_spent_v2 L c st s2)) \<longleftrightarrow> is_number (fst (time_spent_v2 L c st s2)))
   \<and> (time_spent_v2 L c st s2 = (Some NaN, Some NaN) \<longleftrightarrow>
        truthy_str st \<and> \<not> time_present L st \<and> time_present L s2 \<and> within_cutoff L c s2)
   \<and> (\<not> is_number (fst (time_spent_v2 L c st s2)) \<and> time_spent_v2 L c st s2 \<noteq> (Some NaN, Some NaN)
        \<longrightarrow> time_spent_v2 L c st s2 = (None, None))"
  by (auto simp: time_spent_v2_cases time_present_def within_cutoff_def truthy_str_def of_str_def
        differenceInMinutes_def differenceInDays_def
        dest: date_le_valid split: option.splits)

lemmas eval_defs =
  process_issue_v2_def extract_times_def scan_histories_def
  visit_history_def visit_item_def start_time_def backlog_days_def time_spent_v3_def
  time_spent_v2_def differenceInMinutes_def differenceInDays_def date_le_def date_valid_def
  trunc_div_def local_time_def utc_lib_def berlin_lib_def escape_quotes_def
  sample_parseISO_def sample_issue_def sample_config_def Let_def



section \<open>Days in the backlog\<close>

lemma floor_days_div: "floor_days a b = (a - b) div 86400000"
proof -
  have "\<lfloor>real_of_int (a - b) / real_of_int 86400000\<rfloor> = (a - b) div 86400000"
    by (rule floor_divide_of_int_eq)
  then show ?thesis by (simp add: floor_days_def)
qed

lemma trunc_div_nonneg: "0 \<le> a \<Longrightarrow> trunc_div a b = a div b"
  by (cases "a = 0") (simp_all add: trunc_div_def)

lemma trunc_div_neg: "a < 0 \<Longrightarrow> trunc_div a b = - ((- a) div b)"
  by (simp add: trunc_div_def)

lemma backlog_days_cases:
  "backlog_days L now st =
     (case st of None \<Rightarrow> None
      | Some s \<Rightarrow> if s = [] then None
                  else (case parseISO L s of None \<Rightarrow> Some NaN
                        | Some t \<Rightarrow> Some (Num (trunc_div (local_time L now - local_time L t) 86400000))))"
  by (simp add: backlog_days_def differenceInDays_def split: option.splits)

text \<open>
  Claim C4, as amended. \<open>backlogDays\<close> is computed by the same expression in both files,
  and stored as it is in the row of \<^verbatim>\<open>src/index.js\<close>. For every start time that is present
  and reads as a date, it is the difference between now and the start time, both as the
  local clock of the process shows them, in whole days with the fraction truncated toward
  zero: the floor of that difference when the start time is not later than now, and minus
  the floor of the difference taken the other way when it is later. Where the local clock
  has the same offset from UTC at both instants, this is the difference of the instants
  themselves. \<open>backlogDays\<close> is \<open>null\<close> when the start time is \<open>null\<close> or empty. The claim as
  stated fails twice: for an issue created a day and a half after now the script gives
  \<open>-1\<close> where the floor is \<open>-2\<close>, and for an issue created 23 hours before now, the
  clocks having gone forward in between, it gives \<open>1\<close> where the floor of the difference
  in days is \<open>0\<close>.
\<close>

theorem backlog_days_truncates:
  "Currently_in_Backlog_for (process_issue_v2 L c now i)
     = backlog_days L now (Start_Time (process_issue_v2 L c now i))
   \<and> (\<not> truthy_str st \<longrightarrow> backlog_days L now st = None)
   \<and> (\<forall>s t. st = Some s \<and> s \<noteq> [] \<and> parseISO L s = Some t \<longrightarrow>
         backlog_days L now st
           = Some (Num (trunc_div (local_time L now - local_time L t) 86400000))
         \<and> (local_time L t \<le> local_time L now \<longrightarrow>
              backlog_days L now st = Some (Num (floor_days (local_time L now) (local_time L t))))
         \<and> (local_time L now < local_time L t \<longrightarrow>
              backlog_days L now st = Some (Num (- floor_days (local_time L t) (local_time L now))))
         \<and> (tzOffset L now = tzOffset L t \<longrightarrow>
              backlog_days L now st = Some (Num (trunc_div (now - t) 86400000))))"
proof -
  have "(\<not> truthy_str st \<longrightarrow> backlog_days L now st = None)
   \<and> (\<forall>s t. st = Some s \<and> s \<noteq> [] \<and> parseISO L s = Some t \<longrightarrow>
         backlog_days L now st
           = Some (Num (trunc_div (local_time L now - local_time L t) 86400000))
         \<and> (local_time L t \<le> local_time L now \<longrightarrow>
              backlog_days L now st = Some (Num (floor_days (local_time L now) (local_time L t))))
         \<and> (local_time L now < local_time L t \<longrightarrow>
              backlog_days L now st = Some (Num (- floor_days (local_time L t) (local_time L now))))
         \<and> (tzOffset L now = tzOffset L t \<longrightarrow>
              backlog_days L now st = Some (Num (trunc_div (now - t) 86400000))))"
    by (cases st)
       (auto simp: backlog_days_cases floor_days_div trunc_div_nonneg trunc_div_neg local_time_def)
  with row_v2_fields(3) [of L c now i] show ?thesis by blast
qed

theorem backlog_days_floor_counterexample:
  "Start_Time (process_issue_v2 utc_lib (sample_config ''2024-12-31'') 1704067200000 future_issue)
     = Some ''2024-01-02T12:00:00Z''
   \<and> parseISO utc_lib ''2024-01-02T12:00:00Z'' = Some 1704196800000
   \<and> Currently_in_Backlog_for (process_issue_v2 utc_lib (sample_config ''2024-12-31'')
       1704067200000 future_issue) = Some (Num (- 1))
   \<and> floor_days 1704067200000 1704196800000 = - 2
   \<and> Start_Time (process_issue_v2 berlin_lib (sample_config ''2024-12-31'') 1711879200000 spring_issue)
     = Some ''2024-03-30T12:00:00+01:00''
   \<and> parseISO berlin_lib ''2024-03-30T12:00:00+01:00'' = Some 1711796400000
   \<and> Currently_in_Backlog_for (process_issue_v2 berlin_lib (sample_config ''2024-12-31'')
       1711879200000 spring_issue) = Some (Num 1)
   \<and> floor_days 1711879200000 1711796400000 = 0"
  by (simp add: eval_defs future_issue_def spring_issue_def floor_days_div)

theorem backlog_days_truncates_witness:
  "Currently_in_Backlog_for (process_issue_v2 utc_lib (sample_config ''2024-12-31'')
       1704844800000 sample_issue) = Some (Num 9)
   \<and> Currently_in_Backlog_for (process_issue_v2 utc_lib (sample_config ''2024-12-31'')
       1704067200000 future_issue) = Some (Num (- 1))
   \<and> Currently_in_Backlog_for (process_issue_v2 berlin_lib (sample_config ''2024-12-31'')
       1711879200000 spring_issue) = Some (Num 1)
   \<and> Currently_in_Backlog_for (process_issue_v2 utc_lib
       ((sample_config ''2024-12-31'')\<lparr>useCreatedDate := False\<rparr>)
       1704844800000 sample_issue) = None"
  using backlog_days_truncates [of utc_lib "sample_config ''2024-12-31''"
          1704844800000 sample_issue "Some ''2024-01-01T00:00:00Z''"]
        backlog_days_truncates [of utc_lib "sample_config ''2024-12-31''"
          1704067200000 future_issue "Some ''2024-01-02T12:00:00Z''"]
        backlog_days_truncates [of berlin_lib "sample_config ''2024-12-31''"
          1711879200000 spring_issue "Some ''2024-03-30T12:00:00+01:00''"]
        backlog_days_truncates [of utc_lib "(sample_config ''2024-12-31'')\<lparr>useCreatedDate := False\<rparr>"
          1704844800000 sample_issue None]
  by (simp add: eval_defs future_issue_def spring_issue_def floor_days_div)

section \<open>The average\<close>

lemma foldl_js_add_Num:
  "foldl js_add (Num a) (map Num ns) = Num (a + sum_list ns)"
  by (induction ns arbitrary: a) (simp_all add: js_add_def)

lemma valid_days_no_NaN:
  assumes "\<forall>r \<in> set rs. Time_Spent_Days r \<noteq> Some NaN"
  shows "List.map_filter (\<lambda>v. v) (map Time_Spent_Days rs) = map Num (present_days rs)"
  using assms
proof (induction rs)
  case Nil
  then show ?case by (simp add: present_days_def map_filter_simps)
next
  case (Cons r rs)
  then have ih: "List.map_filter (\<lambda>v. v) (map Time_Spent_Days rs) = map Num (present_days rs)"
    by simp
  from Cons.prems have "Time_Spent_Days r \<noteq> Some NaN" by simp
  then show ?case
  proof (cases "Time_Spent_Days r")
    case None
    with ih show ?thesis by (simp add: present_days_def map_filter_simps)
  next
    case (Some n)
    with \<open>Time_Spent_Days r \<noteq> Some NaN\<close> obtain k where "n = Num k" by (cases n) auto
    with Some ih show ?thesis by (simp add: present_days_def map_filter_simps)
  qed
qed

lemma calculateAverageTimeSpentDays_v3_mean:
  assumes "\<forall>r \<in> set rs. Time_Spent_Days r \<noteq> Some NaN"
  shows "calculateAverageTimeSpentDays_v3 rs = mean_of (present_days rs)"
  by (simp add: calculateAverageTimeSpentDays_v3_def valid_days_no_NaN [OF assms]
        foldl_js_add_Num mean_of_def Let_def)

lemma foldl_days_or_zero:
  "foldl (\<lambda>sum result. sum + days_or_zero (Time_Spent_Days result)) a rs = a + sum_list (present_days rs)"
proof (induction rs arbitrary: a)
  case Nil
  then show ?case by (simp add: present_days_def map_filter_simps)
next
  case (Cons r rs)
  show ?case
  proof (cases "Time_Spent_Days r")
    case None
    then show ?thesis using Cons.IH by (simp add: present_days_def map_filter_simps days_or_zero_def)
  next
    case (Some n)
    then show ?thesis using Cons.IH
      by (cases n) (simp_all add: present_days_def map_filter_simps days_or_zero_def)
  qed
qed

lemma calculateAverageTimeSpentDays_v2_all_rows:
  "calculateAverageTimeSpentDays_v2 rs =
     (if rs = [] then Real 0 else Real (of_int (sum_list (present_days rs)) / of_nat (length rs)))"
  by (simp add: calculateAverageTimeSpentDays_v2_def foldl_days_or_zero Let_def)

text \<open>
  Claim C3. The average of \<^verbatim>\<open>src/unnamed/part_000\<close> is the mean of the \<open>timeSpentDays\<close>
  that are present (\<open>calculateAverageTimeSpentDays_v3_mean\<close>, for rows that hold no
  \<open>NaN\<close>). The average of \<^verbatim>\<open>src/index.js\<close> divides the same sum by the number of all rows
  (\<open>calculateAverageTimeSpentDays_v2_all_rows\<close>): of one issue that took nine days and one
  that never reached \<open>status2\<close> it reports 4.5, not 9, which is what the function of
  \<^verbatim>\<open>src/unnamed/part_000\<close> returns on the same two rows.
\<close>

theorem average_v2_counts_absent_rows:
  "present_days [process_issue_v2 utc_lib (sample_config ''2024-12-31'') 1704844800000 sample_issue,
                 process_issue_v2 utc_lib (sample_config ''2024-12-31'') 1704844800000 future_issue] = [9]
   \<and> mean_of [9] = Real 9
   \<and> calculateAverageTimeSpentDays_v2
       [process_issue_v2 utc_lib (sample_config ''2024-12-31'') 1704844800000 sample_issue,
        process_issue_v2 utc_lib (sample_config ''2024-12-31'') 1704844800000 future_issue]
     = Real (9 / 2)
   \<and> calculateAverageTimeSpentDays_v3
       [process_issue_v2 utc_lib (sample_config ''2024-12-31'') 1704844800000 sample_issue,
        process_issue_v2 utc_lib (sample_config ''2024-12-31'') 1704844800000 future_issue]
     = Real 9"
  by (simp add: eval_defs future_issue_def present_days_def map_filter_simps mean_of_def
        calculateAverageTimeSpentDays_v2_def calculateAverageTimeSpentDays_v3_def
        days_or_zero_def js_add_def)


section \<open>Retries and the shape of a trace\<close>

lemma outcome_of_simps [simp]:
  "outcome_of (Inl e) = Aborted" "outcome_of (Inr v) = Completed"
  by (simp_all add: outcome_of_def)

lemma http_eq:
  "http req answer tr = (tr @ [Call req (failure_of (answer (length tr)))], answer (length tr))"
  by (simp add: http_def)

lemma failure_of_simps [simp]:
  "failure_of (Inl e) = Some e" "failure_of (Inr v) = None"
  by (simp_all add: failure_of_def)

lemma withRetry_from_shape:
  "withRetry_from k (http req answer) R 500 tr = (tr', res) \<Longrightarrow>
     \<exists>ext. tr' = tr @ ext \<and> fetch_log R k ext = outcome_of res"
proof (induction k "http req answer :: 'a effect" R "500::int" tr arbitrary: tr' res
       rule: withRetry_from.induct)
  case (1 attempt retries tr)
  show ?case
  proof (cases "answer (length tr)")
    case (Inr v)
    with "1.prems" have "tr' = tr @ [Call req None]" "res = Inr v"
      by (simp_all add: withRetry_from.simps [of attempt] http_eq)
    then show ?thesis by simp
  next
    case (Inl e)
    show ?thesis
    proof (cases "attempt < retries \<and> retryable (err_status e)")
      case False
      with Inl "1.prems" have "tr' = tr @ [Call req (Some e)]" "res = Inl e"
        by (auto simp: withRetry_from.simps [of attempt] http_eq)
      then show ?thesis by simp
    next
      case True
      let ?tr1 = "tr @ [Call req (Some e)]"
      let ?tr2 = "?tr1 @ [Wait (wait_ms 500 attempt e)]"
      from Inl True "1.prems"
      have rec: "withRetry_from (attempt + 1) (http req answer) retries 500 ?tr2 = (tr', res)"
        by (simp add: withRetry_from.simps [of attempt] http_eq)
      have "\<exists>ext. tr' = ?tr2 @ ext \<and> fetch_log retries (attempt + 1) ext = outcome_of res"
        using "1.hyps" [of ?tr1 "Inl e" e tr' res] True rec Inl by (simp add: http_eq)
      then obtain ext where ext: "tr' = ?tr2 @ ext" "fetch_log retries (Suc attempt) ext = outcome_of res"
        by auto
      have "tr' = tr @ (Call req (Some e) # Wait (wait_ms 500 attempt e) # ext)"
        using ext(1) by simp
      moreover have "fetch_log retries attempt (Call req (Some e) # Wait (wait_ms 500 attempt e) # ext)
                     = outcome_of res"
        using True ext(2) by simp
      ultimately show ?thesis by blast
    qed
  qed
qed

lemma withRetry_shape:
  "withRetry (http req answer) tr = (tr', res) \<Longrightarrow>
     \<exists>ext. tr' = tr @ ext \<and> fetch_log 3 0 ext = outcome_of res"
  unfolding withRetry_def by (rule withRetry_from_shape)

lemma fetch_log_append:
  "fetch_log R k a = Completed \<Longrightarrow> fetch_log R k (a @ b) = fetch_log R 0 b"
  by (induction R k a rule: fetch_log.induct) (auto split: if_splits)

lemma fetch_log_no_fatal:
  "fetch_log R k a = Completed \<Longrightarrow> has_fatal (a @ b) = has_fatal b"
  by (induction R k a rule: fetch_log.induct) (auto split: if_splits)

lemma fetch_log_aborted_fatal:
  "fetch_log R k a = Aborted \<Longrightarrow> has_fatal a"
  by (induction R k a rule: fetch_log.induct) (auto split: if_splits)

lemma fetch_log_written:
  "fetch_log R k a \<noteq> Malformed \<Longrightarrow> written a = []"
  by (induction R k a rule: fetch_log.induct) (auto simp: written_def map_filter_simps split: if_splits)

lemma fetchIssues_v3_shape:
  "fetchIssues_v3 w tok tr = (tr', res) \<Longrightarrow>
     \<exists>ext. tr' = tr @ ext \<and> fetch_log 3 0 ext = outcome_of res"
  unfolding fetchIssues_v3_def by (rule withRetry_shape)

lemma fetchIssues_v2_shape:
  "fetchIssues_v2 w startAt tr = (tr', res) \<Longrightarrow>
     \<exists>ext. tr' = tr @ ext \<and> fetch_log 0 0 ext = outcome_of res"
proof (cases "search_v2 w (length tr) startAt")
  case (Inl e)
  assume "fetchIssues_v2 w startAt tr = (tr', res)"
  with Inl have "tr' = tr @ [Call (Search_v2 startAt) (Some e)]" "res = Inl e"
    by (simp_all add: fetchIssues_v2_def http_eq)
  then show ?thesis by simp
next
  case (Inr v)
  assume "fetchIssues_v2 w startAt tr = (tr', res)"
  with Inr have "tr' = tr @ [Call (Search_v2 startAt) None]" "res = Inr v"
    by (simp_all add: fetchIssues_v2_def http_eq)
  then show ?thesis by simp
qed

lemma shape_step:
  assumes "tr1 = tr @ ext1" "fetch_log R 0 ext1 = Completed"
    and "\<exists>ext. tr2 = tr1 @ ext \<and> fetch_log R 0 ext = oc"
  shows "\<exists>ext. tr2 = tr @ ext \<and> fetch_log R 0 ext = oc"
proof -
  from assms(3) obtain ext2 where "tr2 = tr1 @ ext2" "fetch_log R 0 ext2 = oc" by auto
  with assms(1,2) have "tr2 = tr @ (ext1 @ ext2)" "fetch_log R 0 (ext1 @ ext2) = oc"
    by (simp_all add: fetch_log_append)
  then show ?thesis by blast
qed

lemma fetchIssueChangelog_from_shape:
  assumes "fetchIssueChangelog_from w0 k0 s0 hs0 tr0 = Some y0"
  shows "\<exists>ext. fst y0 = tr0 @ ext \<and> fetch_log 3 0 ext = outcome_of (snd y0)"
proof (rule fetchIssueChangelog_from.raw_induct
    [where P = "\<lambda>w k s hs tr y. \<exists>ext. fst y = tr @ ext \<and> fetch_log 3 0 ext = outcome_of (snd y)",
     OF _ assms])
  fix f :: "world \<Rightarrow> string \<Rightarrow> nat \<Rightarrow> history list \<Rightarrow> event list
               \<Rightarrow> (event list \<times> (err + history list)) option"
    and w issueKey startAt histories tr y
  assume IH: "\<And>w k s hs tr y. f w k s hs tr = Some y \<Longrightarrow>
                \<exists>ext. fst y = tr @ ext \<and> fetch_log 3 0 ext = outcome_of (snd y)"
  assume body: "(case withRetry (http (Changelog issueKey startAt)
                        (\<lambda>t. changelog_page w t issueKey startAt)) tr of
        (tr1, Inl e) \<Rightarrow> Some (tr1, Inl e)
      | (tr1, Inr data) \<Rightarrow>
          (let vals = (case cl_values data of None \<Rightarrow> [] | Some vs \<Rightarrow> vs);
               histories1 = histories @ vals;
               pageSize = (case cl_maxResults data of None \<Rightarrow> length vals | Some m \<Rightarrow> m);
               total = (case cl_total data of None \<Rightarrow> startAt + pageSize | Some n \<Rightarrow> n);
               isLast = (case cl_isLast data of None \<Rightarrow> startAt + pageSize \<ge> total | Some b \<Rightarrow> b)
           in if isLast then Some (tr1, Inr histories1)
              else f w issueKey
                     (startAt + (if pageSize \<noteq> 0 then pageSize else 100)) histories1 tr1)) = Some y"
  obtain tr1 r where wr:
    "withRetry (http (Changelog issueKey startAt) (\<lambda>t. changelog_page w t issueKey startAt)) tr = (tr1, r)"
    by (cases "withRetry (http (Changelog issueKey startAt) (\<lambda>t. changelog_page w t issueKey startAt)) tr")
  from withRetry_shape [OF wr] obtain ext1 where
    ext1: "tr1 = tr @ ext1" "fetch_log 3 0 ext1 = outcome_of r" by auto
  show "\<exists>ext. fst y = tr @ ext \<and> fetch_log 3 0 ext = outcome_of (snd y)"
  proof (cases r)
    case (Inl e)
    with body wr have "y = (tr1, Inl e)" by simp
    with ext1 Inl show ?thesis by auto
  next
    case (Inr data)
    with ext1 have c1: "fetch_log 3 0 ext1 = Completed" by simp
    from body wr Inr
    have "(\<exists>hs. y = (tr1, Inr hs)) \<or> (\<exists>s hs. f w issueKey s hs tr1 = Some y)"
      by (auto simp: Let_def split: if_splits)
    then show ?thesis
    proof
      assume "\<exists>hs. y = (tr1, Inr hs)"
      with ext1 c1 show ?thesis by auto
    next
      assume "\<exists>s hs. f w issueKey s hs tr1 = Some y"
      then obtain s hs where "f w issueKey s hs tr1 = Some y" by auto
      from IH [OF this]
      have "\<exists>ext. fst y = tr1 @ ext \<and> fetch_log 3 0 ext = outcome_of (snd y)" .
      with ext1(1) c1 show ?thesis by (rule shape_step)
    qed
  qed
qed

lemma fetchIssueChangelog_shape:
  "fetchIssueChangelog w issueKey tr = Some (tr', res) \<Longrightarrow>
     \<exists>ext. tr' = tr @ ext \<and> fetch_log 3 0 ext = outcome_of res"
  unfolding fetchIssueChangelog_def
  by (drule fetchIssueChangelog_from_shape) simp

lemma shape_step_gen:
  assumes "tr1 = tr @ ext1" "fetch_log R 0 ext1 = Completed"
    and "tr2 = tr1 @ ext2"
  shows "tr2 = tr @ (ext1 @ ext2) \<and> fetch_log R 0 (ext1 @ ext2) = fetch_log R 0 ext2"
  using assms by (simp add: fetch_log_append)

lemma process_page_v3_cases:
  "process_page_v3 page results = (case page of [] \<Rightarrow> Inr results | i # rest \<Rightarrow> Inl ReferenceError)"
  by (cases page) (simp_all add: process_issue_v3_def)

text \<open>
  What \<open>getAllIssues\<close> of \<^verbatim>\<open>src/unnamed/part_000\<close> returns, when it returns: its trace is one
  of fetches that succeeded, or ends with a failed fetch and then the result is an
  error; and when the result is a list of rows, the list is empty (it is the list the loop
  started with), because an issue on a page ends the loop with the \<open>ReferenceError\<close>.
\<close>

lemma getAllIssues_from_v3_shape:
  assumes "getAllIssues_from_v3 w0 tok0 rs0 tr0 = Some y0"
  shows "\<exists>ext. fst y0 = tr0 @ ext
           \<and> (fetch_log 3 0 ext = Completed \<or> fetch_log 3 0 ext = Aborted \<and> (\<exists>e. snd y0 = Inl e))
           \<and> (\<forall>rs. snd y0 = Inr rs \<longrightarrow> rs = rs0)"
proof (rule getAllIssues_from_v3.raw_induct
    [where P = "\<lambda>w tok rs tr y. \<exists>ext. fst y = tr @ ext
           \<and> (fetch_log 3 0 ext = Completed \<or> fetch_log 3 0 ext = Aborted \<and> (\<exists>e. snd y = Inl e))
           \<and> (\<forall>rs'. snd y = Inr rs' \<longrightarrow> rs' = rs)",
     OF _ assms])
  fix f :: "world \<Rightarrow> string option \<Rightarrow> row list \<Rightarrow> event list
               \<Rightarrow> (event list \<times> (err + row list)) option"
    and w tok results tr y
  assume IH: "\<And>w tok rs tr y. f w tok rs tr = Some y \<Longrightarrow>
                \<exists>ext. fst y = tr @ ext
           \<and> (fetch_log 3 0 ext = Completed \<or> fetch_log 3 0 ext = Aborted \<and> (\<exists>e. snd y = Inl e))
           \<and> (\<forall>rs'. snd y = Inr rs' \<longrightarrow> rs' = rs)"
  assume body: "(case fetchIssues_v3 w tok tr of
        (tr1, Inl e) \<Rightarrow> Some (tr1, Inl e)
      | (tr1, Inr data) \<Rightarrow>
          (case process_page_v3 (case issues_v3 data of None \<Rightarrow> [] | Some is \<Rightarrow> is) results of
             Inl e \<Rightarrow> Some (tr1, Inl e)
           | Inr results1 \<Rightarrow>
               (if \<not> isLast_v3 data \<and> truthy_str (nextPageToken_v3 data)
                then f w (nextPageToken_v3 data) results1 tr1
                else Some (tr1, Inr results1)))) = Some y"
  obtain tr1 r where fi: "fetchIssues_v3 w tok tr = (tr1, r)"
    by (cases "fetchIssues_v3 w tok tr")
  from fetchIssues_v3_shape [OF fi] obtain ext1 where
    ext1: "tr1 = tr @ ext1" "fetch_log 3 0 ext1 = outcome_of r" by auto
  show "\<exists>ext. fst y = tr @ ext
           \<and> (fetch_log 3 0 ext = Completed \<or> fetch_log 3 0 ext = Aborted \<and> (\<exists>e. snd y = Inl e))
           \<and> (\<forall>rs'. snd y = Inr rs' \<longrightarrow> rs' = results)"
  proof (cases r)
    case (Inl e)
    with body fi have "y = (tr1, Inl e)" by simp
    with ext1 Inl show ?thesis by auto
  next
    case (Inr data)
    with ext1 have c1: "fetch_log 3 0 ext1 = Completed" by simp
    let ?page = "case issues_v3 data of None \<Rightarrow> [] | Some is \<Rightarrow> is"
    show ?thesis
    proof (cases ?page)
      case (Cons i rest)
      then have "process_page_v3 ?page results = Inl ReferenceError"
        by (simp add: process_page_v3_cases)
      with body fi Inr have "y = (tr1, Inl ReferenceError)" by simp
      with ext1(1) c1 show ?thesis by auto
    next
      case Nil
      then have pp: "process_page_v3 ?page results = Inr results"
        by (simp add: process_page_v3_cases)
      from body fi Inr pp
      have "y = (tr1, Inr results) \<or> (\<exists>t. f w t results tr1 = Some y)"
        by (auto split: if_splits)
      then show ?thesis
      proof
        assume "y = (tr1, Inr results)"
        with ext1(1) c1 show ?thesis by auto
      next
        assume "\<exists>t. f w t results tr1 = Some y"
        then obtain t where "f w t results tr1 = Some y" by auto
        from IH [OF this] obtain ext2 where
          e2: "fst y = tr1 @ ext2"
          and o2: "fetch_log 3 0 ext2 = Completed \<or> fetch_log 3 0 ext2 = Aborted \<and> (\<exists>e. snd y = Inl e)"
          and r2: "\<forall>rs'. snd y = Inr rs' \<longrightarrow> rs' = results" by blast
        from shape_step_gen [OF ext1(1) c1 e2]
        have "fst y = tr @ (ext1 @ ext2)" "fetch_log 3 0 (ext1 @ ext2) = fetch_log 3 0 ext2"
          by simp_all
        with o2 r2 show ?thesis by metis
      qed
    qed
  qed
qed

lemma getAllIssues_v3_shape:
  assumes "getAllIssues_v3 w [] = Some (tr, res)"
  shows "(fetch_log 3 0 tr = Completed \<or> fetch_log 3 0 tr = Aborted \<and> (\<exists>e. res = Inl e))
         \<and> (\<forall>rs. res = Inr rs \<longrightarrow> rs = [])"
  using getAllIssues_from_v3_shape [of w None "[]" "[]" "(tr, res)"] assms
  by (simp add: getAllIssues_v3_def)

lemma getAllIssues_from_v2_shape:
  assumes "getAllIssues_from_v2 L0 c0 w0 s0 rs0 tr0 = Some y0"
  shows "\<exists>ext. fst y0 = tr0 @ ext \<and> fetch_log 0 0 ext = outcome_of (snd y0)"
proof (rule getAllIssues_from_v2.raw_induct
    [where P = "\<lambda>L c w s rs tr y. \<exists>ext. fst y = tr @ ext \<and> fetch_log 0 0 ext = outcome_of (snd y)",
     OF _ assms])
  fix f :: "datelib \<Rightarrow> config \<Rightarrow> world \<Rightarrow> nat \<Rightarrow> row list
               \<Rightarrow> event list \<Rightarrow> (event list \<times> (err + row list)) option"
    and L c w startAt results tr y
  assume IH: "\<And>L c w s rs tr y. f L c w s rs tr = Some y \<Longrightarrow>
                \<exists>ext. fst y = tr @ ext \<and> fetch_log 0 0 ext = outcome_of (snd y)"
  assume body: "(case fetchIssues_v2 w startAt tr of
        (tr1, Inl e) \<Rightarrow> Some (tr1, Inl e)
      | (tr1, Inr data) \<Rightarrow>
          (let results1 = process_page_v2 L c w (length tr1) (issues_v2 data) results
           in if startAt + 50 < total_v2 data
              then f L c w (startAt + 50) results1 tr1
              else Some (tr1, Inr results1))) = Some y"
  obtain tr1 r where fi: "fetchIssues_v2 w startAt tr = (tr1, r)"
    by (cases "fetchIssues_v2 w startAt tr")
  from fetchIssues_v2_shape [OF fi] obtain ext1 where
    ext1: "tr1 = tr @ ext1" "fetch_log 0 0 ext1 = outcome_of r" by auto
  show "\<exists>ext. fst y = tr @ ext \<and> fetch_log 0 0 ext = outcome_of (snd y)"
  proof (cases r)
    case (Inl e)
    with body fi have "y = (tr1, Inl e)" by simp
    with ext1 Inl show ?thesis by auto
  next
    case (Inr data)
    with ext1 have c1: "fetch_log 0 0 ext1 = Completed" by simp
    from body fi Inr
    have "(\<exists>rs. y = (tr1, Inr rs)) \<or> (\<exists>s rs. f L c w s rs tr1 = Some y)"
      by (auto simp: Let_def split: if_splits)
    then show ?thesis
    proof
      assume "\<exists>rs. y = (tr1, Inr rs)"
      with ext1 c1 show ?thesis by auto
    next
      assume "\<exists>s rs. f L c w s rs tr1 = Some y"
      then obtain s rs where "f L c w s rs tr1 = Some y" by auto
      from IH [OF this]
      have "\<exists>ext. fst y = tr1 @ ext \<and> fetch_log 0 0 ext = outcome_of (snd y)" .
      with ext1(1) c1 show ?thesis by (rule shape_step)
    qed
  qed
qed

lemma getAllIssues_v2_shape:
  "getAllIssues_v2 L c w tr = Some (tr', res) \<Longrightarrow>
     \<exists>ext. tr' = tr @ ext \<and> fetch_log 0 0 ext = outcome_of res"
  unfolding getAllIssues_v2_def
  by (drule getAllIssues_from_v2_shape) simp



section \<open>The text of the CSV file\<close>

lemma escape_quotes_Cons:
  "escape_quotes (ch # s) = (if ch = CHR 0x22 then [CHR 0x22, CHR 0x22] else [ch]) @ escape_quotes s"
  by (simp add: escape_quotes_def)

lemma escape_quotes_Nil [simp]: "escape_quotes [] = []"
  by (simp add: escape_quotes_def)

lemma unescape_plain:
  "ch \<noteq> CHR 0x22 \<Longrightarrow> unescape_quotes (ch # s) = map_option ((#) ch) (unescape_quotes s)"
  by (cases s) simp_all

lemma unescape_escape: "unescape_quotes (escape_quotes s) = Some s"
  by (induction s) (simp_all add: escape_quotes_Cons unescape_plain)

lemma read_quoted: "read_quoted_field (quoted s) = Some s"
  by (simp add: read_quoted_field_def quoted_def unescape_escape butlast_append)

lemma js_or_Str [simp]: "js_or (Str s) (Str []) = Str s"
  by (simp add: js_or_def)

lemma js_nullish_Str [simp]: "js_nullish (Str s) d = Str s"
  by (simp add: js_nullish_def)

lemma join_or_str [simp]: "join_element (js_or (of_str v) (Str [])) = render_str v"
  by (cases v) (simp_all add: js_or_def of_str_def render_str_def join_element_def)

lemma join_nullish_str [simp]: "join_element (js_nullish (of_str v) (Str [])) = render_str v"
  by (cases v) (simp_all add: js_nullish_def of_str_def render_str_def join_element_def)

lemma join_or_num [simp]: "join_element (js_or (of_num v) (Str [])) = render_num_v2 v"
proof (cases v)
  case None
  then show ?thesis by (simp add: js_or_def of_num_def render_num_v2_def join_element_def)
next
  case (Some n)
  then show ?thesis
    by (cases n) (simp_all add: js_or_def of_num_def render_num_v2_def join_element_def)
qed

lemma join_nullish_num [simp]: "join_element (js_nullish (of_num v) (Str [])) = render_num_v3 v"
proof (cases v)
  case None
  then show ?thesis by (simp add: js_nullish_def of_num_def render_num_v3_def join_element_def)
next
  case (Some n)
  then show ?thesis
    by (cases n) (simp_all add: js_nullish_def of_num_def render_num_v3_def join_element_def)
qed

lemma join_Str [simp]: "join_element (Str s) = s"
  by (simp add: join_element_def)

lemma join_or_val: "join_element (js_or v (Str [])) = render_val_v2 v"
  by (cases v) (simp_all add: js_or_def join_element_def render_val_v2_def)

lemma csv_line_v3: "array_join '','' (csv_cells_v3 r) = row_line_v3 r"
  by (simp add: array_join_def csv_cells_v3_def row_line_v3_def)

lemma csv_line_v2: "array_join '','' (csv_cells_v2 r) = row_line_v2 r"
proof -
  have "join_element (js_or (Affected_Customers r) (Str [])) = render_val_v2 (Affected_Customers r)"
    by (rule join_or_val)
  then show ?thesis by (simp add: array_join_def csv_cells_v2_def row_line_v2_def)
qed

lemma csv_head_v3: "array_join '','' (csv_header_v3 c) = header_line_v3 c"
  by (simp add: array_join_def csv_header_v3_def header_line_v3_def)

lemma csv_head_v2: "array_join '','' (csv_header_v2 c) = header_line_v2 c"
  by (simp add: array_join_def csv_header_v2_def header_line_v2_def)

lemma join_lines: "join_strings [CHR 0x0A] (h # ls) = csv_lines h ls"
  by (induction ls arbitrary: h) (simp_all add: csv_lines_def)

lemma csv_text_v2_lines: "csv_text_v2 c rs = csv_lines (header_line_v2 c) (map row_line_v2 rs)"
  by (simp add: csv_text_v2_def join_lines csv_head_v2 csv_line_v2 comp_def)

lemma csv_text_v3_lines: "csv_text_v3 c rs = csv_lines (header_line_v3 c) (map row_line_v3 rs)"
  by (simp add: csv_text_v3_def join_lines csv_head_v3 csv_line_v3 comp_def)

lemma summary_v2: "Summary (process_issue_v2 L c now i) = escape_quotes (render_str (fields_summary i))"
  by (auto simp: process_issue_v2_def Let_def render_str_def split: option.splits)

lemma show_nat_small: "n < 10 \<Longrightarrow> show_nat n = [digit_char n]"
  by (subst show_nat.simps) simp

lemma show_nat_big: "10 \<le> n \<Longrightarrow> show_nat n = show_nat (n div 10) @ [digit_char n]"
  by (subst show_nat.simps) simp

lemmas show_defs = show_int_def show_nat_small show_nat_big digit_char_def
  render_str_def render_num_v2_def render_num_v3_def render_val_v2_def quoted_def
  row_line_v2_def row_line_v3_def header_line_v2_def header_line_v3_def csv_lines_def


section \<open>Runs\<close>

lemma waits_append: "waits (a @ b) = waits a @ waits b"
  by (induction a rule: waits.induct) simp_all

lemma withRetry_from_waits:
  assumes "\<forall>t e. answer t = Inl e \<longrightarrow> err_retry_after e = None"
  shows "withRetry_from k (http req answer) R b tr = (tr', res) \<Longrightarrow>
     \<exists>n. k + n \<le> max k R \<and> waits tr' = waits tr @ map (\<lambda>j. b * 2 ^ j) [k..<k + n]"
proof (induction k "http req answer :: 'a effect" R b tr arbitrary: tr' res
       rule: withRetry_from.induct)
  case (1 attempt retries baseDelayMs tr)
  show ?case
  proof (cases "answer (length tr)")
    case (Inr v)
    with "1.prems" have "tr' = tr @ [Call req None]"
      by (simp_all add: withRetry_from.simps [of attempt] http_eq)
    then have "attempt + 0 \<le> max attempt retries
               \<and> waits tr' = waits tr @ map (\<lambda>j. baseDelayMs * 2 ^ j) [attempt..<attempt + 0]"
      by (simp add: waits_append)
    then show ?thesis by blast
  next
    case (Inl e)
    with assms have nohdr: "err_retry_after e = None" by blast
    show ?thesis
    proof (cases "attempt < retries \<and> retryable (err_status e)")
      case False
      with Inl "1.prems" have "tr' = tr @ [Call req (Some e)]"
        by (auto simp: withRetry_from.simps [of attempt] http_eq)
      then have "attempt + 0 \<le> max attempt retries
               \<and> waits tr' = waits tr @ map (\<lambda>j. baseDelayMs * 2 ^ j) [attempt..<attempt + 0]"
        by (simp add: waits_append)
      then show ?thesis by blast
    next
      case True
      let ?tr1 = "tr @ [Call req (Some e)]"
      let ?tr2 = "?tr1 @ [Wait (wait_ms baseDelayMs attempt e)]"
      from Inl True "1.prems"
      have rec: "withRetry_from (attempt + 1) (http req answer) retries baseDelayMs ?tr2 = (tr', res)"
        by (simp add: withRetry_from.simps [of attempt] http_eq)
      have "\<exists>n. (attempt + 1) + n \<le> max (attempt + 1) retries
               \<and> waits tr' = waits ?tr2 @ map (\<lambda>j. baseDelayMs * 2 ^ j) [attempt + 1..<(attempt + 1) + n]"
        using "1.hyps" [of ?tr1 "Inl e" e tr' res] True rec Inl by (simp add: http_eq)
      then obtain n where n: "(attempt + 1) + n \<le> max (attempt + 1) retries"
        "waits tr' = waits ?tr2 @ map (\<lambda>j. baseDelayMs * 2 ^ j) [attempt + 1..<(attempt + 1) + n]"
        by blast
      have w2: "waits ?tr2 = waits tr @ [baseDelayMs * 2 ^ attempt]"
        by (simp add: waits_append wait_ms_def nohdr)
      have "[attempt..<attempt + Suc n] = attempt # [attempt + 1..<(attempt + 1) + n]"
        by (simp add: upt_conv_Cons)
      with n(2) w2 have "waits tr' = waits tr @ map (\<lambda>j. baseDelayMs * 2 ^ j) [attempt..<attempt + Suc n]"
        by simp
      moreover from n(1) True have "attempt + Suc n \<le> max attempt retries" by simp
      ultimately show ?thesis by blast
    qed
  qed
qed

lemma sorted_backoff: "0 \<le> b \<Longrightarrow> sorted (map (\<lambda>j. (b::int) * 2 ^ j) [k..<m])"
proof -
  assume b: "0 \<le> b"
  have "mono (\<lambda>j::nat. b * 2 ^ j)"
    by (rule monoI) (simp add: b mult_left_mono power_increasing)
  then show ?thesis
    by (simp add: sorted_map mono_def sorted_wrt_iff_nth_less)
qed

lemma withRetry_waits:
  assumes "\<forall>t e. answer t = Inl e \<longrightarrow> err_retry_after e = None"
  shows "\<exists>n\<le>3. waits (fst (withRetry (http req answer) tr))
            = waits tr @ map (\<lambda>j. 500 * 2 ^ j) [0..<n]
         \<and> sorted (map (\<lambda>j. (500::int) * 2 ^ j) [0..<n])"
proof -
  obtain tr' res where wr: "withRetry_from 0 (http req answer) 3 500 tr = (tr', res)"
    by (cases "withRetry_from 0 (http req answer) 3 500 tr")
  from withRetry_from_waits [OF assms wr] obtain n where
    n: "0 + n \<le> max 0 3" "waits tr' = waits tr @ map (\<lambda>j. 500 * 2 ^ j) [0..<0 + n]" by blast
  have "sorted (map (\<lambda>j. (500::int) * 2 ^ j) [0..<n])" by (rule sorted_backoff) simp
  with n wr show ?thesis by (auto simp: withRetry_def)
qed

text \<open>
  Four failures in a row, the first three with a status that is retried: \<open>withRetry\<close> makes
  the four attempts with the three waits between them and throws the fourth error.
\<close>

lemma withRetry_ceiling:
  assumes a1: "answer (length tr) = Inl e1" "retryable (err_status e1)"
    and a2: "answer (length tr + 2) = Inl e2" "retryable (err_status e2)"
    and a3: "answer (length tr + 4) = Inl e3" "retryable (err_status e3)"
    and a4: "answer (length tr + 6) = Inl e4"
  shows "withRetry (http req answer) tr =
           (tr @ [Call req (Some e1), Wait (wait_ms 500 0 e1),
                  Call req (Some e2), Wait (wait_ms 500 1 e2),
                  Call req (Some e3), Wait (wait_ms 500 2 e3),
                  Call req (Some e4)], Inl e4)"
proof -
  let ?t1 = "tr @ [Call req (Some e1), Wait (wait_ms 500 0 e1)]"
  let ?t2 = "?t1 @ [Call req (Some e2), Wait (wait_ms 500 1 e2)]"
  let ?t3 = "?t2 @ [Call req (Some e3), Wait (wait_ms 500 2 e3)]"
  have s0: "withRetry_from 0 (http req answer) 3 500 tr
              = withRetry_from 1 (http req answer) 3 500 ?t1"
    using a1 by (subst withRetry_from.simps) (simp add: http_eq)
  have l1: "length ?t1 = length tr + 2" by simp
  have s1: "withRetry_from 1 (http req answer) 3 500 ?t1
              = withRetry_from 2 (http req answer) 3 500 ?t2"
    using a2 by (subst withRetry_from.simps) (simp only: http_eq l1, simp add: numeral_2_eq_2)
  have l2: "length ?t2 = length tr + 4" by simp
  have s2: "withRetry_from 2 (http req answer) 3 500 ?t2
              = withRetry_from 3 (http req answer) 3 500 ?t3"
    using a3 by (subst withRetry_from.simps) (simp only: http_eq l2, simp)
  have l3: "length ?t3 = length tr + 6" by simp
  have s3: "withRetry_from 3 (http req answer) 3 500 ?t3 = (?t3 @ [Call req (Some e4)], Inl e4)"
    using a4 by (subst withRetry_from.simps) (simp only: http_eq l3, simp)
  show ?thesis unfolding withRetry_def s0 s1 s2 s3 by simp
qed

lemma retryable_cases:
  "retryable (Some 429)" "retryable (Some 500)" "retryable (Some 599)"
  "\<not> retryable (Some 499)" "\<not> retryable (Some 600)" "\<not> retryable (Some 401)" "\<not> retryable None"
  by (simp_all add: retryable_def)

lemma wait_ms_cases:
  "err_retry_after e = None \<Longrightarrow> wait_ms b k e = b * 2 ^ k"
  "err_retry_after e = Some NaN \<Longrightarrow> wait_ms b k e = b * 2 ^ k"
  "err_retry_after e = Some (Num 0) \<Longrightarrow> wait_ms b k e = b * 2 ^ k"
  "err_retry_after e = Some (Num n) \<Longrightarrow> n \<noteq> 0 \<Longrightarrow> wait_ms b k e = n * 1000"
  by (simp_all add: wait_ms_def)

lemma withRetry_ok:
  "answer (length tr) = Inr v \<Longrightarrow> withRetry (http req answer) tr = (tr @ [Call req None], Inr v)"
  by (simp add: withRetry_def withRetry_from.simps [of 0] http_eq)

lemma written_simps [simp]:
  "written [] = []" "written (WriteFile s # es) = s # written es"
  "written (Report a # es) = written es" "written (Call r f # es) = written es"
  "written (Wait d # es) = written es"
  by (simp_all add: written_def map_filter_simps)

lemma written_append: "written (a @ b) = written a @ written b"
  by (induction a) (simp_all add: written_def map_filter_simps split: option.splits)

text \<open>
  A loop started in a state that the run reaches does what the loop started at the
  beginning does.
\<close>

lemma state_after_v2_loop:
  "state_after_v2 L c w n = Some (s, rs, tr) \<Longrightarrow>
     getAllIssues_v2 L c w [] = getAllIssues_from_v2 L c w s rs tr"
proof (induction n arbitrary: s rs tr)
  case 0
  then show ?case by (simp add: getAllIssues_v2_def)
next
  case (Suc n)
  from Suc.prems obtain s0 rs0 tr0 data where
    st: "state_after_v2 L c w n = Some (s0, rs0, tr0)"
    and fi: "fetchIssues_v2 w s0 tr0 = (tr, Inr data)"
    and more: "s0 + 50 < total_v2 data"
    and s: "s = s0 + 50"
    and rs: "rs = process_page_v2 L c w (length tr) (issues_v2 data) rs0"
    by (auto split: option.splits prod.splits sum.splits if_splits)
  have "getAllIssues_from_v2 L c w s0 rs0 tr0 = getAllIssues_from_v2 L c w s rs tr"
    by (subst getAllIssues_from_v2.simps) (simp add: fi more s rs Let_def)
  with Suc.IH [OF st] show ?case by simp
qed

lemma state_after_v3_loop:
  "state_after_v3 w n = Some (tok, rs, tr) \<Longrightarrow>
     getAllIssues_v3 w [] = getAllIssues_from_v3 w tok rs tr"
proof (induction n arbitrary: tok rs tr)
  case 0
  then show ?case by (simp add: getAllIssues_v3_def)
next
  case (Suc n)
  from Suc.prems obtain tok0 rs0 tr0 data where
    st: "state_after_v3 w n = Some (tok0, rs0, tr0)"
    and fi: "fetchIssues_v3 w tok0 tr0 = (tr, Inr data)"
    and pp: "process_page_v3 (case issues_v3 data of None \<Rightarrow> [] | Some is \<Rightarrow> is) rs0 = Inr rs"
    and more: "\<not> isLast_v3 data \<and> truthy_str (nextPageToken_v3 data)"
    and tok: "tok = nextPageToken_v3 data"
    by (auto split: option.splits prod.splits sum.splits if_splits)
  have "getAllIssues_from_v3 w tok0 rs0 tr0 = getAllIssues_from_v3 w tok rs tr"
    by (subst getAllIssues_from_v3.simps) (simp add: fi pp more tok)
  with Suc.IH [OF st] show ?case by simp
qed

lemma abort_v2:
  assumes st: "state_after_v2 L c w n = Some (s, rs, tr)"
    and fi: "fetchIssues_v2 w s tr = (tr1, Inl e)"
  shows "getAllIssues_v2 L c w [] = Some (tr1, Inl e)"
  unfolding state_after_v2_loop [OF st]
  by (subst getAllIssues_from_v2.simps) (simp add: fi)

lemma abort_fetch_v3:
  assumes st: "state_after_v3 w n = Some (tok, rs, tr)"
    and fi: "fetchIssues_v3 w tok tr = (tr1, Inl e)"
  shows "getAllIssues_v3 w [] = Some (tr1, Inl e)"
  unfolding state_after_v3_loop [OF st]
  by (subst getAllIssues_from_v3.simps) (simp add: fi)

lemma abort_issue_v3:
  assumes st: "state_after_v3 w n = Some (tok, rs, tr)"
    and fi: "fetchIssues_v3 w tok tr = (tr1, Inr data)"
    and pg: "issues_v3 data = Some (i # rest)"
  shows "getAllIssues_v3 w [] = Some (tr1, Inl ReferenceError)"
  unfolding state_after_v3_loop [OF st]
  by (subst getAllIssues_from_v3.simps) (simp add: fi pg process_page_v3_cases)

lemma error_v2_no_file:
  assumes g: "getAllIssues_v2 L c w [] = Some (tr, Inl e)"
  shows "main_v2 L c w = Some tr \<and> written tr = []"
proof -
  from getAllIssues_v2_shape [OF g] have "fetch_log 0 0 tr = Aborted" by simp
  then have "fetch_log 0 0 tr \<noteq> Malformed" by simp
  then have "written tr = []" by (rule fetch_log_written)
  with g show ?thesis by (simp add: main_v2_def)
qed

lemma error_v3_no_file:
  assumes g: "getAllIssues_v3 w [] = Some (tr, Inl e)"
  shows "main_v3 c w = Some tr \<and> written tr = []"
proof -
  from getAllIssues_v3_shape [OF g] have "fetch_log 3 0 tr \<noteq> Malformed" by auto
  then have "written tr = []" by (rule fetch_log_written)
  with g show ?thesis by (simp add: main_v3_def)
qed

lemma run_verdict_v2:
  assumes m: "main_v2 L c w = Some tr"
  shows "(has_fatal tr \<longrightarrow> written tr = [])
    \<and> (written tr \<noteq> [] \<longrightarrow>
         (\<exists>ext results. getAllIssues_v2 L c w [] = Some (ext, Inr results)
            \<and> \<not> has_fatal ext \<and> written ext = []
            \<and> tr = ext @ [WriteFile (csv_lines (header_line_v2 c) (map row_line_v2 results)),
                           Report (calculateAverageTimeSpentDays_v2 results)]))"
proof -
  from m obtain ext res where g: "getAllIssues_v2 L c w [] = Some (ext, res)"
    by (auto simp: main_v2_def split: option.splits)
  from getAllIssues_v2_shape [OF g] have sh: "fetch_log 0 0 ext = outcome_of res" by simp
  show ?thesis
  proof (cases res)
    case (Inl e)
    with g error_v2_no_file [of L c w ext e] m show ?thesis by simp
  next
    case (Inr results)
    with sh have cpl: "fetch_log 0 0 ext = Completed" by simp
    from m g Inr have tr: "tr = ext @ [WriteFile (csv_lines (header_line_v2 c) (map row_line_v2 results)),
                           Report (calculateAverageTimeSpentDays_v2 results)]"
      by (simp add: main_v2_def csv_text_v2_lines)
    from fetch_log_no_fatal [OF cpl] tr have nf: "\<not> has_fatal tr" by simp
    from fetch_log_no_fatal [OF cpl, of "[]"] have nfe: "\<not> has_fatal ext" by simp
    from cpl have "fetch_log 0 0 ext \<noteq> Malformed" by simp
    then have we: "written ext = []" by (rule fetch_log_written)
    from g Inr nf nfe we tr show ?thesis by auto
  qed
qed

lemma run_verdict_v3:
  assumes m: "main_v3 c w = Some tr"
  shows "(has_fatal tr \<longrightarrow> written tr = [])
    \<and> (written tr \<noteq> [] \<longrightarrow>
         (\<exists>ext. getAllIssues_v3 w [] = Some (ext, Inr [])
            \<and> \<not> has_fatal ext \<and> written ext = []
            \<and> tr = ext @ [Report (Real 0), WriteFile (header_line_v3 c)]))"
proof -
  from m obtain ext res where g: "getAllIssues_v3 w [] = Some (ext, res)"
    by (auto simp: main_v3_def split: option.splits)
  note sh = getAllIssues_v3_shape [OF g]
  show ?thesis
  proof (cases res)
    case (Inl e)
    with g error_v3_no_file [of w ext e c] m show ?thesis by simp
  next
    case (Inr results)
    with sh have cpl: "fetch_log 3 0 ext = Completed" and none: "results = []" by auto
    from m g Inr none have tr: "tr = ext @ [Report (Real 0), WriteFile (header_line_v3 c)]"
      by (simp add: main_v3_def csv_text_v3_lines csv_lines_def
            calculateAverageTimeSpentDays_v3_def map_filter_simps)
    from fetch_log_no_fatal [OF cpl] tr have nf: "\<not> has_fatal tr" by simp
    from fetch_log_no_fatal [OF cpl, of "[]"] have nfe: "\<not> has_fatal ext" by simp
    from cpl have "fetch_log 3 0 ext \<noteq> Malformed" by simp
    then have we: "written ext = []" by (rule fetch_log_written)
    from g Inr none nf nfe we tr show ?thesis by auto
  qed
qed
lemma fetch_log_no_waits: "fetch_log 0 k a \<noteq> Malformed \<Longrightarrow> waits a = []"
  by (induction "0::nat" k a rule: fetch_log.induct) (auto split: if_splits)

lemmas run_defs = main_v3_def main_v2_def getAllIssues_v3_def getAllIssues_v2_def
  fetchIssues_v3_def fetchIssues_v2_def fetchIssueChangelog_def withRetry_def http_def
  failure_of_def retryable_def wait_ms_def jira_world_def failing_world_def sample_world_def
  search_server_v2_def search_server_v3_def changelog_server_def page_of_def token_offset_def
  page_token_def truthy_str_def of_str_def process_page_v3_cases

text \<open>The run of \<^verbatim>\<open>src/index.js\<close> against a server that holds the one sample issue.\<close>

lemma sample_rows_v2:
  "getAllIssues_v2 utc_lib (sample_config ''2024-12-31'') sample_world []
     = Some ([Call (Search_v2 0) None],
             Inr [process_issue_v2 utc_lib (sample_config ''2024-12-31'') 1704844800000 sample_issue])"
  by (simp add: run_defs getAllIssues_from_v2.simps)

lemma sample_average_v2:
  "calculateAverageTimeSpentDays_v2
     [process_issue_v2 utc_lib (sample_config ''2024-12-31'') 1704844800000 sample_issue] = Real 9"
  by (simp add: calculateAverageTimeSpentDays_v2_def days_or_zero_def time_spent_v2_cases
        within_cutoff_def)
     (simp add: eval_defs)

lemma sample_line_v2:
  "row_line_v2 (process_issue_v2 utc_lib (sample_config ''2024-12-31'') 1704844800000 sample_issue)
     = ''MIS-1,\"He said \"\"hi\"\"\",08 Blocked,High,2024-01-01T00:00:00Z,9,2024-01-10T00:00:00Z,12960,9,Unassigned,N/A''"
  by (simp add: eval_defs show_defs js_or_def)

lemma sample_head_v2:
  "header_line_v2 (sample_config ''2024-12-31'')
     = ''Issue Key,Summary,Status,Priority,Start Time,Currently in Backlog for,08 Blocked Time,Time Spent (Minutes),Time Spent (Days),Assignee,Affected Customers''"
  by (simp add: header_line_v2_def sample_config_def)

lemma sample_head_v3:
  "header_line_v3 (sample_config ''2024-12-31'')
     = ''Issue Key,Summary,Status,Priority,Start Time,Currently in Backlog for,08 Blocked Time,Time Spent (Minutes),Time Spent (Days),Assignee''"
  by (simp add: header_line_v3_def sample_config_def)

lemma sample_run_v2:
  "main_v2 utc_lib (sample_config ''2024-12-31'') sample_world
     = Some [Call (Search_v2 0) None,
             WriteFile (''Issue Key,Summary,Status,Priority,Start Time,Currently in Backlog for,08 Blocked Time,Time Spent (Minutes),Time Spent (Days),Assignee,Affected Customers''
               @ [CHR 0x0A]
               @ ''MIS-1,\"He said \"\"hi\"\"\",08 Blocked,High,2024-01-01T00:00:00Z,9,2024-01-10T00:00:00Z,12960,9,Unassigned,N/A''),
             Report (Real 9)]"
  unfolding main_v2_def sample_rows_v2
  by (simp add: sample_average_v2 csv_text_v2_lines csv_lines_def sample_line_v2 sample_head_v2)


section \<open>A failed run writes no file\<close>

text \<open>
  Claim C8. A run of either file that reaches a request for a page of issues which fails
  (in \<^verbatim>\<open>src/unnamed/part_000\<close>: fails after its retries) ends there, and so does a run of
  \<^verbatim>\<open>src/unnamed/part_000\<close> that gets a page with an issue on it, where the loop body throws:
  the run returns, its trace is the trace up to the failure, and no file is written. In
  the other direction, in every run that ends: when some request failed and no retry
  followed it, no file is written; and when a file is written, \<open>getAllIssues\<close> had
  returned its rows, no request of the fetching had failed for good, nothing was written
  during the fetching, and the one write, after the last fetch, holds the header line and
  the line of every row (for \<^verbatim>\<open>src/unnamed/part_000\<close>, which returns no row, the header line
  alone). The fetching of a changelog writes nothing, whatever it returns.
\<close>

theorem no_partial_csv:
  "(state_after_v2 L c w m = Some (s, rs, pre) \<and> fetchIssues_v2 w s pre = (tr1, Inl e)
      \<longrightarrow> main_v2 L c w = Some tr1 \<and> written tr1 = [])
   \<and> (state_after_v3 w m3 = Some (tok, rs3, pre3) \<and> fetchIssues_v3 w tok pre3 = (tr3, Inl e3)
      \<longrightarrow> main_v3 c w = Some tr3 \<and> written tr3 = [])
   \<and> (state_after_v3 w m3 = Some (tok, rs3, pre3) \<and> fetchIssues_v3 w tok pre3 = (tr4, Inr data)
        \<and> issues_v3 data = Some (i # rest)
      \<longrightarrow> main_v3 c w = Some tr4 \<and> written tr4 = [])
   \<and> (fetchIssueChangelog w k pre5 = Some (tr5, res5) \<longrightarrow> written tr5 = written pre5)
   \<and> (main_v2 L c w = Some tr \<longrightarrow>
        (has_fatal tr \<longrightarrow> written tr = [])
      \<and> (written tr \<noteq> [] \<longrightarrow>
           (\<exists>ext results. getAllIssues_v2 L c w [] = Some (ext, Inr results)
              \<and> \<not> has_fatal ext \<and> written ext = []
              \<and> tr = ext @ [WriteFile (csv_lines (header_line_v2 c) (map row_line_v2 results)),
                             Report (calculateAverageTimeSpentDays_v2 results)])))
   \<and> (main_v3 c w = Some tr' \<longrightarrow>
        (has_fatal tr' \<longrightarrow> written tr' = [])
      \<and> (written tr' \<noteq> [] \<longrightarrow>
           (\<exists>ext. getAllIssues_v3 w [] = Some (ext, Inr [])
              \<and> \<not> has_fatal ext \<and> written ext = []
              \<and> tr' = ext @ [Report (Real 0), WriteFile (header_line_v3 c)])))"
proof -
  have a: "state_after_v2 L c w m = Some (s, rs, pre) \<and> fetchIssues_v2 w s pre = (tr1, Inl e)
      \<longrightarrow> main_v2 L c w = Some tr1 \<and> written tr1 = []"
    using abort_v2 [of L c w m s rs pre tr1 e] error_v2_no_file [of L c w tr1 e] by blast
  have b: "state_after_v3 w m3 = Some (tok, rs3, pre3) \<and> fetchIssues_v3 w tok pre3 = (tr3, Inl e3)
      \<longrightarrow> main_v3 c w = Some tr3 \<and> written tr3 = []"
    using abort_fetch_v3 [of w m3 tok rs3 pre3 tr3 e3] error_v3_no_file [of w tr3 e3 c] by blast
  have d: "state_after_v3 w m3 = Some (tok, rs3, pre3) \<and> fetchIssues_v3 w tok pre3 = (tr4, Inr data)
        \<and> issues_v3 data = Some (i # rest)
      \<longrightarrow> main_v3 c w = Some tr4 \<and> written tr4 = []"
    using abort_issue_v3 [of w m3 tok rs3 pre3 tr4 data i rest]
      error_v3_no_file [of w tr4 ReferenceError c] by blast
  have f: "fetchIssueChangelog w k pre5 = Some (tr5, res5) \<longrightarrow> written tr5 = written pre5"
  proof
    assume "fetchIssueChangelog w k pre5 = Some (tr5, res5)"
    from fetchIssueChangelog_shape [OF this] obtain ext where
      ext: "tr5 = pre5 @ ext" "fetch_log 3 0 ext = outcome_of res5" by blast
    from ext(2) have "fetch_log 3 0 ext \<noteq> Malformed" by (cases res5) simp_all
    then have "written ext = []" by (rule fetch_log_written)
    with ext(1) show "written tr5 = written pre5" by (simp add: written_append)
  qed
  from a b d f run_verdict_v2 [of L c w tr] run_verdict_v3 [of c w tr'] show ?thesis by blast
qed

theorem no_partial_csv_witness:
  "main_v3 (sample_config ''2024-12-31'') (failing_world 401)
     = Some [Call (Search_v3 None) (Some (Err (Some 401) None))]
   \<and> main_v2 utc_lib (sample_config ''2024-12-31'') (failing_world 500)
     = Some [Call (Search_v2 0) (Some (Err (Some 500) None))]
   \<and> main_v3 (sample_config ''2024-12-31'') sample_world = Some [Call (Search_v3 None) None]
   \<and> main_v2 utc_lib (sample_config ''2024-12-31'') sample_world
     = Some [Call (Search_v2 0) None,
             WriteFile (''Issue Key,Summary,Status,Priority,Start Time,Currently in Backlog for,08 Blocked Time,Time Spent (Minutes),Time Spent (Days),Assignee,Affected Customers''
               @ [CHR 0x0A]
               @ ''MIS-1,\"He said \"\"hi\"\"\",08 Blocked,High,2024-01-01T00:00:00Z,9,2024-01-10T00:00:00Z,12960,9,Unassigned,N/A''),
             Report (Real 9)]
   \<and> main_v3 (sample_config ''2024-12-31'') empty_world
     = Some [Call (Search_v3 None) None, Report (Real 0),
             WriteFile ''Issue Key,Summary,Status,Priority,Start Time,Currently in Backlog for,08 Blocked Time,Time Spent (Minutes),Time Spent (Days),Assignee'']
   \<and> state_after_v2 utc_lib (sample_config ''2024-12-31'') flaky_world 1
     = Some (50, [process_issue_v2 utc_lib (sample_config ''2024-12-31'') 1704844800000 sample_issue],
             [Call (Search_v2 0) None])
   \<and> main_v2 utc_lib (sample_config ''2024-12-31'') flaky_world
     = Some [Call (Search_v2 0) None, Call (Search_v2 50) (Some (Err (Some 500) None))]"
proof -
  let ?c = "sample_config ''2024-12-31''"
  let ?r = "process_issue_v2 utc_lib ?c 1704844800000 sample_issue"
  have k2: "state_after_v2 utc_lib ?c flaky_world 1 = Some (50, [?r], [Call (Search_v2 0) None])"
    by (simp add: fetchIssues_v2_def http_def failure_of_def flaky_world_def)
  have kf: "fetchIssues_v2 flaky_world 50 [Call (Search_v2 0) None]
              = ([Call (Search_v2 0) None, Call (Search_v2 50) (Some (Err (Some 500) None))],
                 Inl (Err (Some 500) None))"
    by (simp add: fetchIssues_v2_def http_def failure_of_def flaky_world_def)
  from k2 kf
    no_partial_csv [of utc_lib ?c flaky_world 1 50 "[?r]" "[Call (Search_v2 0) None]"
      "[Call (Search_v2 0) None, Call (Search_v2 50) (Some (Err (Some 500) None))]"
      "Err (Some 500) None" 0 None "[]" "[]" "[]" "Err None None" "[]" _ _ _ _ _ _ _ "[]" "[]"]
  have r4: "main_v2 utc_lib ?c flaky_world
     = Some [Call (Search_v2 0) None, Call (Search_v2 50) (Some (Err (Some 500) None))]"
    by simp
  have s2: "state_after_v2 utc_lib ?c w 0 = Some (0, [], [])" for w by simp
  have s3: "state_after_v3 w 0 = Some (None, [], [])" for w by simp
  have f3: "fetchIssues_v3 (failing_world 401) None []
              = ([Call (Search_v3 None) (Some (Err (Some 401) None))], Inl (Err (Some 401) None))"
    by (simp add: run_defs withRetry_from.simps)
  have f2: "fetchIssues_v2 (failing_world 500) 0 []
              = ([Call (Search_v2 0) (Some (Err (Some 500) None))], Inl (Err (Some 500) None))"
    by (simp add: run_defs)
  have i3: "fetchIssues_v3 sample_world None []
              = ([Call (Search_v3 None) None],
                 Inr \<lparr>issues_v3 = Some [sample_issue], isLast_v3 = True, nextPageToken_v3 = None\<rparr>)"
    by (simp add: run_defs withRetry_from.simps)
  have g0: "getAllIssues_v3 empty_world [] = Some ([Call (Search_v3 None) None], Inr [])"
    by (simp add: run_defs empty_world_def getAllIssues_from_v3.simps withRetry_from.simps)
  have m0: "main_v3 ?c empty_world
     = Some [Call (Search_v3 None) None, Report (Real 0), WriteFile (header_line_v3 ?c)]"
    unfolding main_v3_def g0
    by (simp add: csv_text_v3_lines csv_lines_def calculateAverageTimeSpentDays_v3_def
          map_filter_simps)
  from s2 s3 f3 f2 i3
    no_partial_csv [of utc_lib ?c "failing_world 500" 0 0 "[]" "[]"
      "[Call (Search_v2 0) (Some (Err (Some 500) None))]" "Err (Some 500) None"
      0 None "[]" "[]" "[]" "Err (Some 500) None" "[]" _ _ _ _ _ _ _ "[]" "[]"]
    no_partial_csv [of utc_lib ?c "failing_world 401" 0 0 "[]" "[]" "[]" "Err (Some 401) None"
      0 None "[]" "[]" "[Call (Search_v3 None) (Some (Err (Some 401) None))]"
      "Err (Some 401) None" "[]" _ _ _ _ _ _ _ "[]" "[]"]
    no_partial_csv [of utc_lib ?c sample_world 0 0 "[]" "[]" "[]" "Err None None"
      0 None "[]" "[]" "[]" "Err None None" "[Call (Search_v3 None) None]"
      "\<lparr>issues_v3 = Some [sample_issue], isLast_v3 = True, nextPageToken_v3 = None\<rparr>"
      sample_issue "[]" _ _ _ _ "[]" "[]"]
  have r1: "main_v2 utc_lib ?c (failing_world 500) = Some [Call (Search_v2 0) (Some (Err (Some 500) None))]"
    and r2: "main_v3 ?c (failing_world 401) = Some [Call (Search_v3 None) (Some (Err (Some 401) None))]"
    and r3: "main_v3 ?c sample_world = Some [Call (Search_v3 None) None]"
    by simp_all
  from r1 r2 r3 r4 k2 m0 show ?thesis
    by (simp add: sample_run_v2 sample_head_v3)
qed

section \<open>Backoff and the retry ceiling\<close>

lemma changelog_ceiling:
  assumes a1: "changelog_page w (length tr) k s = Inl e1" "retryable (err_status e1)"
    and a2: "changelog_page w (length tr + 2) k s = Inl e2" "retryable (err_status e2)"
    and a3: "changelog_page w (length tr + 4) k s = Inl e3" "retryable (err_status e3)"
    and a4: "changelog_page w (length tr + 6) k s = Inl e4"
  shows "fetchIssueChangelog_from w k s acc tr =
           Some (tr @ [Call (Changelog k s) (Some e1), Wait (wait_ms 500 0 e1),
                       Call (Changelog k s) (Some e2), Wait (wait_ms 500 1 e2),
                       Call (Changelog k s) (Some e3), Wait (wait_ms 500 2 e3),
                       Call (Changelog k s) (Some e4)], Inl e4)"
  by (subst fetchIssueChangelog_from.simps)
     (simp add: withRetry_ceiling [of "\<lambda>t. changelog_page w t k s", OF a1 a2 a3 a4])

lemma search_ceiling:
  assumes st: "state_after_v3 w m = Some (tok, rs, pre)"
    and a1: "search_v3 w (length pre) tok = Inl e1" "retryable (err_status e1)"
    and a2: "search_v3 w (length pre + 2) tok = Inl e2" "retryable (err_status e2)"
    and a3: "search_v3 w (length pre + 4) tok = Inl e3" "retryable (err_status e3)"
    and a4: "search_v3 w (length pre + 6) tok = Inl e4"
  shows "main_v3 c w =
           Some (pre @ [Call (Search_v3 tok) (Some e1), Wait (wait_ms 500 0 e1),
                        Call (Search_v3 tok) (Some e2), Wait (wait_ms 500 1 e2),
                        Call (Search_v3 tok) (Some e3), Wait (wait_ms 500 2 e3),
                        Call (Search_v3 tok) (Some e4)])
         \<and> written (pre @ [Call (Search_v3 tok) (Some e1), Wait (wait_ms 500 0 e1),
                        Call (Search_v3 tok) (Some e2), Wait (wait_ms 500 1 e2),
                        Call (Search_v3 tok) (Some e3), Wait (wait_ms 500 2 e3),
                        Call (Search_v3 tok) (Some e4)]) = []"
proof -
  have fi: "fetchIssues_v3 w tok pre =
           (pre @ [Call (Search_v3 tok) (Some e1), Wait (wait_ms 500 0 e1),
                   Call (Search_v3 tok) (Some e2), Wait (wait_ms 500 1 e2),
                   Call (Search_v3 tok) (Some e3), Wait (wait_ms 500 2 e3),
                   Call (Search_v3 tok) (Some e4)], Inl e4)"
    unfolding fetchIssues_v3_def
    by (rule withRetry_ceiling [of "\<lambda>t. search_v3 w t tok", OF a1 a2 a3 a4])
  from abort_fetch_v3 [OF st fi] show ?thesis by (rule error_v3_no_file)
qed

lemma first_failure_v2:
  assumes st: "state_after_v2 L c w m = Some (s, rs, pre)"
    and fi: "fetchIssues_v2 w s pre = (tr, Inl e)"
  shows "main_v2 L c w = Some tr \<and> written tr = [] \<and> waits tr = []"
proof -
  note g = abort_v2 [OF st fi]
  from getAllIssues_v2_shape [OF g] have "fetch_log 0 0 tr \<noteq> Malformed" by simp
  then have "waits tr = []" by (rule fetch_log_no_waits)
  with error_v2_no_file [OF g] show ?thesis by simp
qed

text \<open>
  Claim C6. In \<^verbatim>\<open>src/unnamed/part_000\<close>: when no error of a request carries a
  \<open>retry-after\<close> header, the waits of one \<open>withRetry\<close> call are \<open>500, 1000, 2000\<close> cut
  after at most three, so each wait is at least the one before it. When a run reaches a
  request for a page of issues, and that request fails four times in a row with a status
  that is retried (the fourth failure may have any status), the run makes the four
  attempts with the three waits between them and ends at the fourth failure: it returns,
  and no file is written. The requests of \<open>fetchIssueChangelog\<close> are retried in the same
  way, and four failures in a row end it with the fourth error. \<^verbatim>\<open>src/index.js\<close> does not
  retry: a run that reaches a request which fails ends there, without a wait and without a
  file.
\<close>

theorem retry_backoff_and_ceiling:
  "((\<forall>t e. answer t = Inl e \<longrightarrow> err_retry_after e = None) \<longrightarrow>
      (\<exists>n\<le>3. waits (fst (withRetry (http req answer) tr))
                 = waits tr @ map (\<lambda>j. 500 * 2 ^ j) [0..<n]
              \<and> sorted (map (\<lambda>j. (500::int) * 2 ^ j) [0..<n])))
   \<and> (state_after_v3 w m = Some (tok, rs, pre)
        \<and> search_v3 w (length pre) tok = Inl e1 \<and> retryable (err_status e1)
        \<and> search_v3 w (length pre + 2) tok = Inl e2 \<and> retryable (err_status e2)
        \<and> search_v3 w (length pre + 4) tok = Inl e3 \<and> retryable (err_status e3)
        \<and> search_v3 w (length pre + 6) tok = Inl e4
      \<longrightarrow> main_v3 c w =
           Some (pre @ [Call (Search_v3 tok) (Some e1), Wait (wait_ms 500 0 e1),
                        Call (Search_v3 tok) (Some e2), Wait (wait_ms 500 1 e2),
                        Call (Search_v3 tok) (Some e3), Wait (wait_ms 500 2 e3),
                        Call (Search_v3 tok) (Some e4)])
         \<and> written (pre @ [Call (Search_v3 tok) (Some e1), Wait (wait_ms 500 0 e1),
                        Call (Search_v3 tok) (Some e2), Wait (wait_ms 500 1 e2),
                        Call (Search_v3 tok) (Some e3), Wait (wait_ms 500 2 e3),
                        Call (Search_v3 tok) (Some e4)]) = [])
   \<and> (changelog_page w (length tr) k s = Inl e1 \<and> retryable (err_status e1)
        \<and> changelog_page w (length tr + 2) k s = Inl e2 \<and> retryable (err_status e2)
        \<and> changelog_page w (length tr + 4) k s = Inl e3 \<and> retryable (err_status e3)
        \<and> changelog_page w (length tr + 6) k s = Inl e4
      \<longrightarrow> fetchIssueChangelog_from w k s acc tr =
           Some (tr @ [Call (Changelog k s) (Some e1), Wait (wait_ms 500 0 e1),
                       Call (Changelog k s) (Some e2), Wait (wait_ms 500 1 e2),
                       Call (Changelog k s) (Some e3), Wait (wait_ms 500 2 e3),
                       Call (Changelog k s) (Some e4)], Inl e4))
   \<and> (state_after_v2 L c w m2 = Some (s2, rs2, pre2) \<and> fetchIssues_v2 w s2 pre2 = (tr2, Inl e)
      \<longrightarrow> main_v2 L c w = Some tr2 \<and> written tr2 = [] \<and> waits tr2 = [])"
  using withRetry_waits [of answer req tr]
    search_ceiling [of w m tok rs pre e1 e2 e3 e4 c]
    changelog_ceiling [of w tr k s e1 e2 e3 e4 acc]
    first_failure_v2 [of L c w m2 s2 rs2 pre2 tr2 e]
  by blast

theorem retry_backoff_and_ceiling_witness:
  "waits (fst (withRetry (http (Search_v3 None) (\<lambda>t. search_v3 (failing_world 503) t None)) []))
     = [500, 1000, 2000]
   \<and> main_v3 (sample_config ''2024-12-31'') (failing_world 503) =
       Some [Call (Search_v3 None) (Some (Err (Some 503) None)), Wait 500,
             Call (Search_v3 None) (Some (Err (Some 503) None)), Wait 1000,
             Call (Search_v3 None) (Some (Err (Some 503) None)), Wait 2000,
             Call (Search_v3 None) (Some (Err (Some 503) None))]
   \<and> written [Call (Search_v3 None) (Some (Err (Some 503) None)), Wait 500,
             Call (Search_v3 None) (Some (Err (Some 503) None)), Wait 1000,
             Call (Search_v3 None) (Some (Err (Some 503) None)), Wait 2000,
             Call (Search_v3 None) (Some (Err (Some 503) None))] = []
   \<and> fetchIssueChangelog (failing_world 503) ''MIS-1'' [] =
       Some ([Call (Changelog ''MIS-1'' 0) (Some (Err (Some 503) None)), Wait 500,
              Call (Changelog ''MIS-1'' 0) (Some (Err (Some 503) None)), Wait 1000,
              Call (Changelog ''MIS-1'' 0) (Some (Err (Some 503) None)), Wait 2000,
              Call (Changelog ''MIS-1'' 0) (Some (Err (Some 503) None))], Inl (Err (Some 503) None))
   \<and> main_v2 utc_lib (sample_config ''2024-12-31'') (failing_world 503)
       = Some [Call (Search_v2 0) (Some (Err (Some 503) None))]
   \<and> state_after_v3 flaky_world 1 = Some (Some ''t'', [], [Call (Search_v3 None) None])
   \<and> main_v3 (sample_config ''2024-12-31'') flaky_world =
       Some [Call (Search_v3 None) None,
             Call (Search_v3 (Some ''t'')) (Some (Err (Some 503) None)), Wait 500,
             Call (Search_v3 (Some ''t'')) (Some (Err (Some 503) None)), Wait 1000,
             Call (Search_v3 (Some ''t'')) (Some (Err (Some 503) None)), Wait 2000,
             Call (Search_v3 (Some ''t'')) (Some (Err (Some 503) None))]"
proof -
  let ?e = "Err (Some 503) None"
  let ?w = "failing_world 503"
  have k3: "state_after_v3 flaky_world 1 = Some (Some ''t'', [], [Call (Search_v3 None) None])"
    by (simp add: fetchIssues_v3_def withRetry_def withRetry_from.simps http_def failure_of_def
          flaky_world_def process_page_v3_cases)
  have ka: "search_v3 flaky_world t (Some ''t'') = Inl ?e" for t
    by (simp add: flaky_world_def)
  have r503: "retryable (err_status ?e)" by (simp add: retryable_def)
  from k3 ka r503
    retry_backoff_and_ceiling [of "\<lambda>t. search_v3 flaky_world t (Some ''t'')" "Search_v3 (Some ''t'')"
      "[]" flaky_world 1 "Some ''t''" "[]" "[Call (Search_v3 None) None]" ?e ?e ?e ?e
      "sample_config ''2024-12-31''" "''MIS-1''" 0 "[]"
      utc_lib 0 0 "[]" "[]" "[]" ?e]
  have fl: "main_v3 (sample_config ''2024-12-31'') flaky_world =
       Some [Call (Search_v3 None) None,
             Call (Search_v3 (Some ''t'')) (Some ?e), Wait 500,
             Call (Search_v3 (Some ''t'')) (Some ?e), Wait 1000,
             Call (Search_v3 (Some ''t'')) (Some ?e), Wait 2000,
             Call (Search_v3 (Some ''t'')) (Some ?e)]"
    by (simp add: wait_ms_def)
  have nohdr: "\<forall>t e. search_v3 ?w t None = Inl e \<longrightarrow> err_retry_after e = None"
    by (simp add: failing_world_def)
  have w: "waits (fst (withRetry (http (Search_v3 None) (\<lambda>t. search_v3 ?w t None)) []))
     = [500, 1000, 2000]"
    by (simp add: run_defs withRetry_from.simps)
  have s3: "state_after_v3 ?w 0 = Some (None, [], [])" by simp
  have s2: "state_after_v2 utc_lib (sample_config ''2024-12-31'') ?w 0 = Some (0, [], [])" by simp
  have a: "search_v3 ?w t None = Inl ?e" "changelog_page ?w t ''MIS-1'' 0 = Inl ?e" for t
    by (simp_all add: failing_world_def)
  have r: "retryable (err_status ?e)" by (simp add: retryable_def)
  have f2: "fetchIssues_v2 ?w 0 [] = ([Call (Search_v2 0) (Some ?e)], Inl ?e)"
    by (simp add: run_defs)
  from nohdr w s3 s2 a r f2
    retry_backoff_and_ceiling [of "\<lambda>t. search_v3 ?w t None" "Search_v3 None" "[]"
      ?w 0 None "[]" "[]" ?e ?e ?e ?e "sample_config ''2024-12-31''" "''MIS-1''" 0 "[]"
      utc_lib 0 0 "[]" "[]" "[Call (Search_v2 0) (Some ?e)]" ?e]
    k3 fl
  show ?thesis by (simp add: wait_ms_def fetchIssueChangelog_def)
qed


section \<open>The Summary field and the rendering of zero\<close>

lemma process_page_v2_rows:
  "\<forall>r \<in> set acc. issue_row_v2 L c r \<Longrightarrow>
     \<forall>r \<in> set (process_page_v2 L c w t page acc). issue_row_v2 L c r"
proof (induction page arbitrary: acc)
  case Nil
  then show ?case by simp
next
  case (Cons i rest)
  have "issue_row_v2 L c (process_issue_v2 L c (clock w t (length acc)) i)"
    unfolding issue_row_v2_def by blast
  with Cons.prems have "\<forall>r \<in> set (acc @ [process_issue_v2 L c (clock w t (length acc)) i]).
                          issue_row_v2 L c r" by simp
  from Cons.IH [OF this] show ?case by simp
qed

lemma getAllIssues_from_v2_rows:
  assumes "getAllIssues_from_v2 L0 c0 w0 s0 rs0 tr0 = Some y0"
  shows "(\<forall>r \<in> set rs0. issue_row_v2 L0 c0 r) \<longrightarrow>
         (\<forall>rs. snd y0 = Inr rs \<longrightarrow> (\<forall>r \<in> set rs. issue_row_v2 L0 c0 r))"
proof (rule getAllIssues_from_v2.raw_induct
    [where P = "\<lambda>L c w s rs tr y. (\<forall>r \<in> set rs. issue_row_v2 L c r) \<longrightarrow>
         (\<forall>rs'. snd y = Inr rs' \<longrightarrow> (\<forall>r \<in> set rs'. issue_row_v2 L c r))",
     OF _ assms])
  fix f :: "datelib \<Rightarrow> config \<Rightarrow> world \<Rightarrow> nat \<Rightarrow> row list
               \<Rightarrow> event list \<Rightarrow> (event list \<times> (err + row list)) option"
    and L c w startAt results tr y
  assume IH: "\<And>L c w s rs tr y. f L c w s rs tr = Some y \<Longrightarrow>
                (\<forall>r \<in> set rs. issue_row_v2 L c r) \<longrightarrow>
                (\<forall>rs'. snd y = Inr rs' \<longrightarrow> (\<forall>r \<in> set rs'. issue_row_v2 L c r))"
  assume body: "(case fetchIssues_v2 w startAt tr of
        (tr1, Inl e) \<Rightarrow> Some (tr1, Inl e)
      | (tr1, Inr data) \<Rightarrow>
          (let results1 = process_page_v2 L c w (length tr1) (issues_v2 data) results
           in if startAt + 50 < total_v2 data
              then f L c w (startAt + 50) results1 tr1
              else Some (tr1, Inr results1))) = Some y"
  show "(\<forall>r \<in> set results. issue_row_v2 L c r) \<longrightarrow>
        (\<forall>rs'. snd y = Inr rs' \<longrightarrow> (\<forall>r \<in> set rs'. issue_row_v2 L c r))"
  proof
    assume inv: "\<forall>r \<in> set results. issue_row_v2 L c r"
    obtain tr1 r where fi: "fetchIssues_v2 w startAt tr = (tr1, r)"
      by (cases "fetchIssues_v2 w startAt tr")
    show "\<forall>rs'. snd y = Inr rs' \<longrightarrow> (\<forall>r \<in> set rs'. issue_row_v2 L c r)"
    proof (cases r)
      case (Inl e)
      with body fi have "y = (tr1, Inl e)" by simp
      then show ?thesis by simp
    next
      case (Inr data)
      let ?rs1 = "process_page_v2 L c w (length tr1) (issues_v2 data) results"
      have inv1: "\<forall>r \<in> set ?rs1. issue_row_v2 L c r"
        using inv by (rule process_page_v2_rows)
      from body fi Inr
      have "y = (tr1, Inr ?rs1) \<or> f L c w (startAt + 50) ?rs1 tr1 = Some y"
        by (auto simp: Let_def split: if_splits)
      then show ?thesis
      proof
        assume "y = (tr1, Inr ?rs1)"
        with inv1 show ?thesis by simp
      next
        assume "f L c w (startAt + 50) ?rs1 tr1 = Some y"
        from IH [OF this] inv1 show ?thesis by blast
      qed
    qed
  qed
qed

lemma written_file_v2:
  assumes m: "main_v2 L c w = Some tr" and ft: "ft \<in> set (written tr)"
  shows "\<exists>results. ft = csv_lines (header_line_v2 c) (map row_line_v2 results)
           \<and> (\<forall>r \<in> set results. issue_row_v2 L c r)"
proof -
  from ft have "written tr \<noteq> []" by auto
  with run_verdict_v2 [OF m] obtain ext results where
    g: "getAllIssues_v2 L c w [] = Some (ext, Inr results)"
    and we: "written ext = []"
    and tr: "tr = ext @ [WriteFile (csv_lines (header_line_v2 c) (map row_line_v2 results)),
                           Report (calculateAverageTimeSpentDays_v2 results)]"
    by blast
  from tr we ft have "ft = csv_lines (header_line_v2 c) (map row_line_v2 results)"
    by (simp add: written_append)
  moreover have "\<forall>r \<in> set results. issue_row_v2 L c r"
    using getAllIssues_from_v2_rows [of L c w 0 "[]" "[]" "(ext, Inr results)"] g
    by (simp add: getAllIssues_v2_def)
  ultimately show ?thesis by blast
qed

lemma written_file_v3:
  assumes m: "main_v3 c w = Some tr" and ft: "ft \<in> set (written tr)"
  shows "ft = header_line_v3 c"
proof -
  from ft have "written tr \<noteq> []" by auto
  with run_verdict_v3 [OF m] obtain ext where
    we: "written ext = []"
    and tr: "tr = ext @ [Report (Real 0), WriteFile (header_line_v3 c)]"
    by blast
  from tr we ft show ?thesis by (simp add: written_append)
qed

lemma row_line_of_issue_v2:
  fixes L c now i
  defines "r \<equiv> process_issue_v2 L c now i"
  shows "row_line_v2 r =
           key i @ '','' @ quoted (render_str (fields_summary i)) @ '','' @ Status r @ '',''
           @ Priority r @ '','' @ render_str (Start_Time r) @ '',''
           @ render_num_v2 (Currently_in_Backlog_for r) @ '','' @ render_str (status2_Time r)
           @ '','' @ render_num_v2 (Time_Spent_Minutes r) @ '',''
           @ render_num_v2 (Time_Spent_Days r) @ '','' @ Assignee r @ '',''
           @ render_val_v2 (Affected_Customers r)"
proof -
  have k: "Issue_Key r = key i" by (simp add: r_def process_issue_v2_def Let_def)
  have sm: "Summary r = escape_quotes (render_str (fields_summary i))"
    unfolding r_def by (rule summary_v2)
  show ?thesis by (simp add: row_line_v2_def quoted_def k sm)
qed

text \<open>
  Claim C9. The text that \<open>saveResultsToCsv\<close> makes of a list of rows is the header line
  followed by the line of each row, and in the line of a row the Summary stands between
  double quotes while every other field stands as it is. In \<^verbatim>\<open>src/index.js\<close> every file
  that a run writes is such a text whose rows are rows of issues, and the row of an issue
  holds the summary with every double quote doubled: the Summary field of its line is the
  quoted summary, which a CSV reader reads back as the summary. A summary
  \<^verbatim>\<open>He said "hi"\<close> is written \<^verbatim>\<open>"He said ""hi"""\<close>. \<^verbatim>\<open>src/unnamed/part_000\<close> builds no row:
  every file that a run of it writes is the header line.
\<close>

theorem summary_field_quoted:
  fixes L c now i
  defines "r \<equiv> process_issue_v2 L c now i"
      and "s \<equiv> render_str (fields_summary i)"
  shows "csv_text_v2 c rs = csv_lines (header_line_v2 c) (map row_line_v2 rs)
       \<and> csv_text_v3 c rs = csv_lines (header_line_v3 c) (map row_line_v3 rs)
       \<and> (main_v2 L c w = Some tr \<and> ft \<in> set (written tr) \<longrightarrow>
            (\<exists>results. ft = csv_lines (header_line_v2 c) (map row_line_v2 results)
               \<and> (\<forall>r \<in> set results. \<exists>now i. r = process_issue_v2 L c now i)))
       \<and> row_line_v2 r =
           key i @ '','' @ quoted s @ '','' @ Status r @ '',''
           @ Priority r @ '','' @ render_str (Start_Time r) @ '',''
           @ render_num_v2 (Currently_in_Backlog_for r) @ '','' @ render_str (status2_Time r)
           @ '','' @ render_num_v2 (Time_Spent_Minutes r) @ '',''
           @ render_num_v2 (Time_Spent_Days r) @ '','' @ Assignee r @ '',''
           @ render_val_v2 (Affected_Customers r)
       \<and> read_quoted_field (quoted s) = Some s
       \<and> (fields_summary i = Some ''He said \"hi\"'' \<longrightarrow> quoted s = ''\"He said \"\"hi\"\"\"'')
       \<and> (main_v3 c w = Some tr3 \<and> ft3 \<in> set (written tr3) \<longrightarrow> ft3 = header_line_v3 c)"
proof -
  have ex: "fields_summary i = Some ''He said \"hi\"'' \<longrightarrow> quoted s = ''\"He said \"\"hi\"\"\"''"
    unfolding s_def by (simp add: render_str_def quoted_def escape_quotes_def)
  have line: "row_line_v2 r =
           key i @ '','' @ quoted s @ '','' @ Status r @ '',''
           @ Priority r @ '','' @ render_str (Start_Time r) @ '',''
           @ render_num_v2 (Currently_in_Backlog_for r) @ '','' @ render_str (status2_Time r)
           @ '','' @ render_num_v2 (Time_Spent_Minutes r) @ '',''
           @ render_num_v2 (Time_Spent_Days r) @ '','' @ Assignee r @ '',''
           @ render_val_v2 (Affected_Customers r)"
    unfolding r_def s_def by (rule row_line_of_issue_v2)
  from ex line csv_text_v2_lines [of c rs] csv_text_v3_lines [of c rs] read_quoted [of s]
    written_file_v2 [of L c w tr ft, unfolded issue_row_v2_def] written_file_v3 [of c w tr3 ft3]
  show ?thesis by blast
qed

theorem summary_field_quoted_witness:
  "csv_text_v2 (sample_config ''2024-12-31'')
      [process_issue_v2 utc_lib (sample_config ''2024-12-31'') 1704844800000 sample_issue]
     = ''Issue Key,Summary,Status,Priority,Start Time,Currently in Backlog for,08 Blocked Time,Time Spent (Minutes),Time Spent (Days),Assignee,Affected Customers''
       @ [CHR 0x0A]
       @ ''MIS-1,\"He said \"\"hi\"\"\",08 Blocked,High,2024-01-01T00:00:00Z,9,2024-01-10T00:00:00Z,12960,9,Unassigned,N/A''
   \<and> quoted ''He said \"hi\"'' = ''\"He said \"\"hi\"\"\"''
   \<and> read_quoted_field ''\"He said \"\"hi\"\"\"'' = Some ''He said \"hi\"''
   \<and> csv_text_v3 (sample_config ''2024-12-31'') []
     = ''Issue Key,Summary,Status,Priority,Start Time,Currently in Backlog for,08 Blocked Time,Time Spent (Minutes),Time Spent (Days),Assignee''"
proof -
  let ?c = "sample_config ''2024-12-31''"
  have sm: "fields_summary sample_issue = Some ''He said \"hi\"''"
    by (simp add: sample_issue_def)
  have rs: "render_str (Some ''He said \"hi\"'') = ''He said \"hi\"''"
    by (simp add: render_str_def)
  note t = summary_field_quoted [of ?c "[process_issue_v2 utc_lib ?c 1704844800000 sample_issue]"
          utc_lib sample_world "[]" "[]" 1704844800000 sample_issue "[]" "[]"]
  note t0 = summary_field_quoted [of ?c "[]" utc_lib sample_world "[]" "[]" 1704844800000
          sample_issue "[]" "[]"]
  from t have imp: "fields_summary sample_issue = Some ''He said \"hi\"'' \<longrightarrow>
                    quoted (render_str (fields_summary sample_issue)) = ''\"He said \"\"hi\"\"\"''"
    by blast
  from t have rd0: "read_quoted_field (quoted (render_str (fields_summary sample_issue)))
                     = Some (render_str (fields_summary sample_issue))"
    by blast
  from t have tx: "csv_text_v2 ?c [process_issue_v2 utc_lib ?c 1704844800000 sample_issue]
              = csv_lines (header_line_v2 ?c)
                  (map row_line_v2 [process_issue_v2 utc_lib ?c 1704844800000 sample_issue])"
    by blast
  from imp sm rs have q: "quoted ''He said \"hi\"'' = ''\"He said \"\"hi\"\"\"''"
    by simp
  from rd0 sm rs q have rd: "read_quoted_field ''\"He said \"\"hi\"\"\"'' = Some ''He said \"hi\"''"
    by simp
  from t0 have tx3: "csv_text_v3 ?c [] = csv_lines (header_line_v3 ?c) (map row_line_v3 [])"
    by blast
  from q rd tx tx3 show ?thesis
    by (simp add: csv_lines_def sample_line_v2 sample_head_v2 sample_head_v3)
qed

lemma render_zero_v2 [simp]: "render_num_v2 (zero_to_absent v) = render_num_v2 v"
  by (simp add: zero_to_absent_def render_num_v2_def)

lemma row_line_zeros_v2: "row_line_v2 (zeros_absent r) = row_line_v2 r"
  by (simp add: row_line_v2_def zeros_absent_def)

lemma length_render_zero_v3:
  "length (render_num_v3 (zero_to_absent v)) \<le> length (render_num_v3 v)"
  "v = Some (Num 0) \<Longrightarrow> length (render_num_v3 (zero_to_absent v)) < length (render_num_v3 v)"
  by (simp_all add: zero_to_absent_def render_num_v3_def show_int_def show_nat_small digit_char_def)

lemma row_line_zeros_v3:
  assumes "Currently_in_Backlog_for r = Some (Num 0) \<or> Time_Spent_Minutes r = Some (Num 0)
           \<or> Time_Spent_Days r = Some (Num 0)"
  shows "length (row_line_v3 (zeros_absent r)) < length (row_line_v3 r)"
proof -
  note l = length_render_zero_v3
  have len: "length (row_line_v3 (zeros_absent r)) + length (render_num_v3 (Currently_in_Backlog_for r))
          + length (render_num_v3 (Time_Spent_Minutes r)) + length (render_num_v3 (Time_Spent_Days r))
        = length (row_line_v3 r)
          + length (render_num_v3 (zero_to_absent (Currently_in_Backlog_for r)))
          + length (render_num_v3 (zero_to_absent (Time_Spent_Minutes r)))
          + length (render_num_v3 (zero_to_absent (Time_Spent_Days r)))"
    by (simp add: row_line_v3_def zeros_absent_def)
  from assms l(1) [of "Currently_in_Backlog_for r"] l(1) [of "Time_Spent_Minutes r"]
    l(1) [of "Time_Spent_Days r"] l(2) [of "Currently_in_Backlog_for r"]
    l(2) [of "Time_Spent_Minutes r"] l(2) [of "Time_Spent_Days r"] len
  show ?thesis by linarith
qed

lemma affected_customers_v2: "Affected_Customers (process_issue_v2 L c now i) \<noteq> Number (Num 0)"
proof -
  have "js_or v (Str ''N/A'') \<noteq> Number (Num 0)" for v
    by (cases v) (auto simp: js_or_def)
  then show ?thesis by (simp add: process_issue_v2_def Let_def)
qed

text \<open>
  Claim C10. In the text that \<open>saveResultsToCsv\<close> of \<^verbatim>\<open>src/index.js\<close> makes, a number \<open>0\<close>
  in \<open>Currently in Backlog for\<close>, \<open>Time Spent (Minutes)\<close> or \<open>Time Spent (Days)\<close> is written
  as the empty string, as an absent value is: the text of a list of rows is the text of
  the same rows with every such \<open>0\<close> made absent. (The remaining column that can hold a
  number, \<open>Affected Customers\<close>, never holds \<open>0\<close> in a row of an issue: the script stores
  \<open>N/A\<close> in its place.) In the text that \<open>saveResultsToCsv\<close> of \<^verbatim>\<open>src/unnamed/part_000\<close>
  makes, such a \<open>0\<close> is written as the character \<open>0\<close> and an absent value as the empty
  string, so the text of a row with a \<open>0\<close> differs from the text of the row with the \<open>0\<close>
  made absent.
\<close>

theorem zero_rendering:
  "csv_text_v2 c (map zeros_absent rs) = csv_text_v2 c rs
   \<and> csv_text_v2 c rs = csv_lines (header_line_v2 c) (map row_line_v2 rs)
   \<and> render_num_v2 (Some (Num 0)) = [] \<and> render_num_v2 None = []
   \<and> Affected_Customers (process_issue_v2 L c now i) \<noteq> Number (Num 0)
   \<and> csv_text_v3 c rs = csv_lines (header_line_v3 c) (map row_line_v3 rs)
   \<and> render_num_v3 (Some (Num 0)) = ''0'' \<and> render_num_v3 None = []
   \<and> (Currently_in_Backlog_for r = Some (Num 0) \<or> Time_Spent_Minutes r = Some (Num 0)
        \<or> Time_Spent_Days r = Some (Num 0)
      \<longrightarrow> csv_text_v3 c [zeros_absent r] \<noteq> csv_text_v3 c [r])"
proof -
  have a: "csv_text_v2 c (map zeros_absent rs) = csv_text_v2 c rs"
    by (simp add: csv_text_v2_lines comp_def row_line_zeros_v2)
  have b: "render_num_v2 (Some (Num 0)) = []" "render_num_v2 None = []"
    "render_num_v3 (Some (Num 0)) = ''0''" "render_num_v3 None = []"
    by (simp_all add: render_num_v2_def render_num_v3_def show_int_def show_nat_small digit_char_def)
  have d: "csv_text_v3 c [zeros_absent r] \<noteq> csv_text_v3 c [r]"
    if "Currently_in_Backlog_for r = Some (Num 0) \<or> Time_Spent_Minutes r = Some (Num 0)
        \<or> Time_Spent_Days r = Some (Num 0)"
  proof
    assume "csv_text_v3 c [zeros_absent r] = csv_text_v3 c [r]"
    then have "length (csv_text_v3 c [zeros_absent r]) = length (csv_text_v3 c [r])" by simp
    then have "length (row_line_v3 (zeros_absent r)) = length (row_line_v3 r)"
      by (simp add: csv_text_v3_lines csv_lines_def)
    with row_line_zeros_v3 [OF that] show False by simp
  qed
  from a b d csv_text_v2_lines [of c rs] csv_text_v3_lines [of c rs]
    affected_customers_v2 [of L c now i]
  show ?thesis by blast
qed

theorem zero_rendering_witness:
  "process_issue_v2 utc_lib (sample_config ''2024-12-31'') 1704067200000 same_day_issue = zero_row
   \<and> csv_text_v2 (sample_config ''2024-12-31'') [zero_row]
     = ''Issue Key,Summary,Status,Priority,Start Time,Currently in Backlog for,08 Blocked Time,Time Spent (Minutes),Time Spent (Days),Assignee,Affected Customers''
       @ [CHR 0x0A]
       @ ''MIS-1,\"He said \"\"hi\"\"\",08 Blocked,High,2024-01-01T00:00:00Z,,2024-01-01T00:00:00Z,,,Unassigned,N/A''
   \<and> csv_text_v2 (sample_config ''2024-12-31'') [zeros_absent zero_row]
     = csv_text_v2 (sample_config ''2024-12-31'') [zero_row]
   \<and> csv_text_v3 (sample_config ''2024-12-31'') [zero_row]
     = ''Issue Key,Summary,Status,Priority,Start Time,Currently in Backlog for,08 Blocked Time,Time Spent (Minutes),Time Spent (Days),Assignee''
       @ [CHR 0x0A]
       @ ''MIS-1,\"He said \"\"hi\"\"\",08 Blocked,High,2024-01-01T00:00:00Z,0,2024-01-01T00:00:00Z,0,0,Unassigned''
   \<and> csv_text_v3 (sample_config ''2024-12-31'') [zeros_absent zero_row]
     \<noteq> csv_text_v3 (sample_config ''2024-12-31'') [zero_row]"
proof -
  let ?c = "sample_config ''2024-12-31''"
  have row: "process_issue_v2 utc_lib ?c 1704067200000 same_day_issue = zero_row"
    by (simp add: eval_defs same_day_issue_def zero_row_def js_or_def)
  have z: "Time_Spent_Days zero_row = Some (Num 0)" by (simp add: zero_row_def)
  have l2: "row_line_v2 zero_row
     = ''MIS-1,\"He said \"\"hi\"\"\",08 Blocked,High,2024-01-01T00:00:00Z,,2024-01-01T00:00:00Z,,,Unassigned,N/A''"
    by (simp add: zero_row_def show_defs)
  have l3: "row_line_v3 zero_row
     = ''MIS-1,\"He said \"\"hi\"\"\",08 Blocked,High,2024-01-01T00:00:00Z,0,2024-01-01T00:00:00Z,0,0,Unassigned''"
    by (simp add: zero_row_def show_defs)
  note t = zero_rendering [of ?c "[zero_row]" utc_lib 1704067200000 same_day_issue zero_row]
  from t have a: "csv_text_v2 ?c [zeros_absent zero_row] = csv_text_v2 ?c [zero_row]"
    by simp
  from t have b: "csv_text_v2 ?c [zero_row]
                   = csv_lines (header_line_v2 ?c) (map row_line_v2 [zero_row])"
    by blast
  from t have d: "csv_text_v3 ?c [zero_row]
                   = csv_lines (header_line_v3 ?c) (map row_line_v3 [zero_row])"
    by blast
  from t z have e: "csv_text_v3 ?c [zeros_absent zero_row] \<noteq> csv_text_v3 ?c [zero_row]"
    by blast
  have b': "csv_text_v2 ?c [zero_row]
     = ''Issue Key,Summary,Status,Priority,Start Time,Currently in Backlog for,08 Blocked Time,Time Spent (Minutes),Time Spent (Days),Assignee,Affected Customers''
       @ [CHR 0x0A]
       @ ''MIS-1,\"He said \"\"hi\"\"\",08 Blocked,High,2024-01-01T00:00:00Z,,2024-01-01T00:00:00Z,,,Unassigned,N/A''"
    unfolding b by (simp add: csv_lines_def l2 sample_head_v2)
  have d': "csv_text_v3 ?c [zero_row]
     = ''Issue Key,Summary,Status,Priority,Start Time,Currently in Backlog for,08 Blocked Time,Time Spent (Minutes),Time Spent (Days),Assignee''
       @ [CHR 0x0A]
       @ ''MIS-1,\"He said \"\"hi\"\"\",08 Blocked,High,2024-01-01T00:00:00Z,0,2024-01-01T00:00:00Z,0,0,Unassigned''"
    unfolding d by (simp add: csv_lines_def l3 sample_head_v3)
  from row a b' d' e show ?thesis by blast
qed

section \<open>Malformed timestamps\<close>

text \<open>
  In \<^verbatim>\<open>src/index.js\<close> every derived field of an issue with a timestamp that does not parse
  is written as the empty string: \<open>|| ''\<close> turns \<open>NaN\<close> and \<open>null\<close> alike into it.
\<close>

lemma malformed_renders_empty_v2:
  fixes L c now i
  defines "r \<equiv> process_issue_v2 L c now i"
  assumes "\<not> time_present L (Start_Time r) \<or> \<not> time_present L (status2_Time r)
           \<or> parseISO L (endDate c) = None"
  shows "render_num_v2 (Time_Spent_Minutes r) = [] \<and> render_num_v2 (Time_Spent_Days r) = []
         \<and> (\<not> time_present L (Start_Time r) \<longrightarrow> render_num_v2 (Currently_in_Backlog_for r) = [])"
  using assms(2) unfolding r_def
  by (auto simp: time_spent_v2_cases backlog_days_cases time_present_def within_cutoff_def
        date_le_def render_num_v2_def differenceInMinutes_def differenceInDays_def
        split: option.splits)

text \<open>
  The expression for \<open>backlogDays\<close> at line 216 of \<^verbatim>\<open>src/unnamed/part_000\<close> has no test for a
  date that does not parse, and \<open>?? ''\<close> at line 281 keeps \<open>NaN\<close>: on a start time that is
  not a date the two would write \<open>NaN\<close>. As the file stands neither line is reached for
  any issue.
\<close>

lemma backlog_days_NaN_v3:
  "s \<noteq> [] \<Longrightarrow> parseISO L s = None \<Longrightarrow> render_num_v3 (backlog_days L now (Some s)) = ''NaN''"
  by (simp add: backlog_days_cases render_num_v3_def)

text \<open>
  Claim C7. An issue whose created date is not a date. A run of \<^verbatim>\<open>src/unnamed/part_000\<close>
  that gets it on a page of the search ends with the \<open>ReferenceError\<close> of line 187: an
  error is raised, no file is written, and no field of the issue is rendered. A run of
  \<^verbatim>\<open>src/index.js\<close> raises nothing and writes the three derived fields of the issue as empty
  strings.
\<close>

theorem malformed_created_raises:
  "getAllIssues_v3 malformed_world [] = Some ([Call (Search_v3 None) None], Inl ReferenceError)
   \<and> main_v3 (sample_config ''2024-12-31'') malformed_world = Some [Call (Search_v3 None) None]
   \<and> written [Call (Search_v3 None) None] = []
   \<and> main_v2 utc_lib (sample_config ''2024-12-31'') malformed_world
     = Some [Call (Search_v2 0) None,
             WriteFile (''Issue Key,Summary,Status,Priority,Start Time,Currently in Backlog for,08 Blocked Time,Time Spent (Minutes),Time Spent (Days),Assignee,Affected Customers''
               @ [CHR 0x0A]
               @ ''MIS-1,\"He said \"\"hi\"\"\",08 Blocked,High,not-a-date,,2024-01-10T00:00:00Z,,,Unassigned,N/A''),
             Report (Real 0)]"
proof -
  let ?c = "sample_config ''2024-12-31''"
  let ?r = "process_issue_v2 utc_lib ?c 1704844800000 malformed_issue"
  have g3: "getAllIssues_v3 malformed_world []
              = Some ([Call (Search_v3 None) None], Inl ReferenceError)"
    by (simp add: run_defs malformed_world_def getAllIssues_from_v3.simps withRetry_from.simps)
  have m3: "main_v3 ?c malformed_world = Some [Call (Search_v3 None) None]"
    unfolding main_v3_def g3 by simp
  have g2: "getAllIssues_v2 utc_lib ?c malformed_world [] = Some ([Call (Search_v2 0) None], Inr [?r])"
    by (simp add: run_defs malformed_world_def getAllIssues_from_v2.simps)
  have avg: "calculateAverageTimeSpentDays_v2 [?r] = Real 0"
    by (simp add: calculateAverageTimeSpentDays_v2_def days_or_zero_def time_spent_v2_cases
          within_cutoff_def)
       (simp add: eval_defs malformed_issue_def)
  have line: "row_line_v2 ?r
      = ''MIS-1,\"He said \"\"hi\"\"\",08 Blocked,High,not-a-date,,2024-01-10T00:00:00Z,,,Unassigned,N/A''"
    by (simp add: eval_defs malformed_issue_def show_defs js_or_def)
  have m2: "main_v2 utc_lib ?c malformed_world
     = Some [Call (Search_v2 0) None,
             WriteFile (csv_lines (header_line_v2 ?c) [row_line_v2 ?r]), Report (Real 0)]"
    unfolding main_v2_def g2 using avg by (simp add: csv_text_v2_lines)
  from g3 m3 m2 show ?thesis by (simp add: csv_lines_def line sample_head_v2)
qed


section \<open>Pagination\<close>

lemma neg_div_ceil:
  assumes b: "0 < (b::int)"
  shows "- (- a div b) = (a + b - 1) div b"
proof -
  define q r where "q = a div b" and "r = a mod b"
  have a: "a = r + q * b" by (simp add: q_def r_def)
  have r: "0 \<le> r" "r < b" using b by (simp_all add: r_def)
  have bn: "b \<noteq> 0" using b by simp
  show ?thesis
  proof (cases "r = 0")
    case True
    have "(a + b - 1) div b = ((b - 1) + q * b) div b" using a True by (simp add: algebra_simps)
    also have "\<dots> = q + (b - 1) div b" using bn by (rule div_mult_self1)
    also have "(b - 1) div b = 0" using b by (simp add: div_pos_pos_trivial)
    finally have rhs: "(a + b - 1) div b = q" by simp
    have "- a div b = - q" using True bn by (simp add: zdiv_zminus1_eq_if q_def r_def)
    with rhs show ?thesis by simp
  next
    case False
    have "(a + b - 1) div b = ((r - 1) + (q + 1) * b) div b" using a by (simp add: algebra_simps)
    also have "\<dots> = (q + 1) + (r - 1) div b" using bn by (rule div_mult_self1)
    also have "(r - 1) div b = 0" using r False by (simp add: div_pos_pos_trivial)
    finally have rhs: "(a + b - 1) div b = q + 1" by simp
    have "- a div b = - q - 1" using False bn by (simp add: zdiv_zminus1_eq_if q_def r_def)
    with rhs show ?thesis by simp
  qed
qed

lemma ceil_div_eq: "0 < p \<Longrightarrow> ceil_div n p = (n + p - 1) div p"
proof -
  assume p: "0 < p"
  have "\<lceil>real n / real p\<rceil> = \<lceil>real_of_int (int n) / real_of_int (int p)\<rceil>" by simp
  also have "\<dots> = - (- int n div int p)" by (rule ceiling_divide_eq_div)
  also have "\<dots> = (int n + int p - 1) div int p" using p by (intro neg_div_ceil) simp
  also have "int n + int p - 1 = int (n + p - 1)" using p by (simp add: of_nat_diff)
  also have "int (n + p - 1) div int p = int ((n + p - 1) div p)" by (simp add: zdiv_int)
  finally show ?thesis by (simp add: ceil_div_def)
qed

lemma page_count_last: "0 < p \<Longrightarrow> n \<le> p \<Longrightarrow> page_count n p = 1"
proof -
  assume p: "0 < p" and n: "n \<le> p"
  then have "n + p - 1 < 2 * p" by simp
  then have "(n + p - 1) div p < 2" using p by (simp add: less_mult_imp_div_less)
  then show ?thesis using p by (simp add: page_count_def ceil_div_eq)
qed

lemma page_count_step: "0 < p \<Longrightarrow> p < n \<Longrightarrow> page_count n p = Suc (page_count (n - p) p)"
proof -
  assume p: "0 < p" and n: "p < n"
  have pn: "p \<noteq> 0" using p by simp
  have "(n - 1 + 1 * p) div p = 1 + (n - 1) div p" using pn by (rule div_mult_self1)
  moreover have "n - 1 + 1 * p = n + p - 1" using n p by simp
  ultimately have big: "(n + p - 1) div p = Suc ((n - 1) div p)" by simp
  have small: "n - p + p - 1 = n - 1" using n by simp
  have "p div p \<le> (n - 1) div p" using n by (intro div_le_mono) simp
  then have one: "1 \<le> (n - 1) div p" using p by simp
  have l: "page_count n p = Suc ((n - 1) div p)"
    using p big by (simp add: page_count_def ceil_div_eq)
  have r: "page_count (n - p) p = (n - 1) div p"
    using p one small by (simp add: page_count_def ceil_div_eq)
  show ?thesis by (simp only: l r)
qed

lemma map_upt_shift:
  "f 0 # map (\<lambda>j. f (Suc j)) [0..<m] = map f [0..<Suc m]"
  by (simp only: map_upt_Suc)

lemma fetchIssueChangelog_from_pages:
  assumes p: "0 < hsize"
    and srv: "changelog_page w = changelog_server hist hsize says_last"
  shows "fetchIssueChangelog_from w k s acc tr =
     Some (tr @ map (\<lambda>j. Call (Changelog k (s + j * hsize)) None)
                    [0..<page_count (length (hist k) - s) hsize],
           Inr (acc @ drop s (hist k)))"
proof (induction "length (hist k) - s" arbitrary: s acc tr rule: less_induct)
  case less
  let ?n = "length (hist k)"
  let ?page = "page_of (hist k) s hsize"
  let ?tr1 = "tr @ [Call (Changelog k s) None]"
  have ans: "changelog_page w (length tr) k s =
      Inr \<lparr>cl_values = Some ?page, cl_maxResults = Some hsize, cl_total = Some ?n,
           cl_isLast = (if says_last then Some (s + length ?page \<ge> ?n) else None)\<rparr>"
    by (simp add: srv changelog_server_def)
  note wr = withRetry_ok [of "\<lambda>t. changelog_page w t k s" tr _ "Changelog k s", OF ans]
  have len: "length ?page = min hsize (?n - s)" by (simp add: page_of_def)
  show ?case
  proof (cases "?n - s \<le> hsize")
    case True
    then have last: "?n \<le> s + length ?page" "?n \<le> s + hsize" using len by auto
    have all: "?page = drop s (hist k)" using True by (simp add: page_of_def)
    have pc: "page_count (?n - s) hsize = 1" using p True by (rule page_count_last)
    have step: "fetchIssueChangelog_from w k s acc tr = Some (?tr1, Inr (acc @ ?page))"
      by (subst fetchIssueChangelog_from.simps) (simp add: wr Let_def last)
    show ?thesis unfolding step all pc by simp
  next
    case False
    then have more: "\<not> ?n \<le> s + length ?page" "\<not> ?n \<le> s + hsize" using len by auto
    have lt: "?n - (s + hsize) < ?n - s" using False p by simp
    have pc: "page_count (?n - s) hsize = Suc (page_count (?n - (s + hsize)) hsize)"
      using page_count_step [of hsize "?n - s"] p False by simp
    have acc: "(acc @ ?page) @ drop (s + hsize) (hist k) = acc @ drop s (hist k)"
    proof -
      have "take hsize (drop s (hist k)) @ drop hsize (drop s (hist k)) = drop s (hist k)"
        by (rule append_take_drop_id)
      then show ?thesis by (simp add: page_of_def add.commute)
    qed
    have tr: "?tr1 @ map (\<lambda>j. Call (Changelog k (s + hsize + j * hsize)) None)
                     [0..<page_count (?n - (s + hsize)) hsize]
          = tr @ map (\<lambda>j. Call (Changelog k (s + j * hsize)) None)
                     [0..<Suc (page_count (?n - (s + hsize)) hsize)]"
      using map_upt_shift [of "\<lambda>j. Call (Changelog k (s + j * hsize)) None"
                              "page_count (?n - (s + hsize)) hsize"]
      by (simp add: add.assoc)
    have step: "fetchIssueChangelog_from w k s acc tr
                  = fetchIssueChangelog_from w k (s + hsize) (acc @ ?page) ?tr1"
      using p by (subst fetchIssueChangelog_from.simps) (simp add: wr Let_def more)
    have "fetchIssueChangelog_from w k (s + hsize) (acc @ ?page) ?tr1 =
          Some (?tr1 @ map (\<lambda>j. Call (Changelog k (s + hsize + j * hsize)) None)
                     [0..<page_count (?n - (s + hsize)) hsize],
                Inr ((acc @ ?page) @ drop (s + hsize) (hist k)))"
      by (rule less.hyps [OF lt])
    then show ?thesis by (simp only: step pc acc tr)
  qed
qed


lemma fetchIssueChangelog_pages:
  assumes p: "0 < hsize"
    and srv: "changelog_page w = changelog_server hist hsize says_last"
  shows "fetchIssueChangelog w k tr =
     Some (tr @ map (\<lambda>j. Call (Changelog k (j * hsize)) None)
                    [0..<page_count (length (hist k)) hsize],
           Inr (hist k))"
  using fetchIssueChangelog_from_pages [OF p srv, of k 0 "[]" tr]
  by (simp add: fetchIssueChangelog_def)

lemma Issue_Key_v2 [simp]: "Issue_Key (process_issue_v2 L c now i) = key i"
  by (simp add: process_issue_v2_def Let_def)

lemma Issue_Key_page_v2:
  "map Issue_Key (process_page_v2 L c w t page acc) = map Issue_Key acc @ map key page"
  by (induction page arbitrary: acc) simp_all

lemma getAllIssues_from_v2_pages:
  assumes srv: "search_v2 w = search_server_v2 iss 50"
  shows "\<exists>rows. getAllIssues_from_v2 L c w s acc tr =
           Some (tr @ map (\<lambda>j. Call (Search_v2 (s + j * 50)) None)
                          [0..<page_count (length iss - s) 50], Inr rows)
         \<and> map Issue_Key rows = map Issue_Key acc @ map key (drop s iss)"
proof (induction "length iss - s" arbitrary: s acc tr rule: less_induct)
  case less
  let ?n = "length iss"
  let ?page = "page_of iss s 50"
  let ?tr1 = "tr @ [Call (Search_v2 s) None]"
  let ?acc1 = "process_page_v2 L c w (length ?tr1) ?page acc"
  have fi: "fetchIssues_v2 w s tr = (?tr1, Inr \<lparr>total_v2 = ?n, issues_v2 = ?page\<rparr>)"
    by (simp add: fetchIssues_v2_def http_eq srv search_server_v2_def)
  have keys: "map Issue_Key ?acc1 = map Issue_Key acc @ map key ?page"
    by (rule Issue_Key_page_v2)
  show ?case
  proof (cases "?n - s \<le> 50")
    case True
    then have last: "\<not> s + 50 < ?n" by simp
    have all: "?page = drop s iss" using True by (simp add: page_of_def)
    have pc: "page_count (?n - s) 50 = 1" using True by (intro page_count_last) simp_all
    have step: "getAllIssues_from_v2 L c w s acc tr = Some (?tr1, Inr ?acc1)"
      by (subst getAllIssues_from_v2.simps) (simp add: fi Let_def last)
    from keys all have "map Issue_Key ?acc1 = map Issue_Key acc @ map key (drop s iss)" by simp
    with step pc show ?thesis by simp
  next
    case False
    then have more: "s + 50 < ?n" by simp
    have lt: "?n - (s + 50) < ?n - s" using False by simp
    have pc: "page_count (?n - s) 50 = Suc (page_count (?n - (s + 50)) 50)"
      using page_count_step [of 50 "?n - s"] False by simp
    have step: "getAllIssues_from_v2 L c w s acc tr
                  = getAllIssues_from_v2 L c w (s + 50) ?acc1 ?tr1"
      by (subst getAllIssues_from_v2.simps) (simp add: fi Let_def more)
    from less.hyps [OF lt, of ?acc1 ?tr1] obtain rows where
      r: "getAllIssues_from_v2 L c w (s + 50) ?acc1 ?tr1 =
            Some (?tr1 @ map (\<lambda>j. Call (Search_v2 (s + 50 + j * 50)) None)
                          [0..<page_count (?n - (s + 50)) 50], Inr rows)"
      and k: "map Issue_Key rows = map Issue_Key ?acc1 @ map key (drop (s + 50) iss)"
      by blast
    have tr: "?tr1 @ map (\<lambda>j. Call (Search_v2 (s + 50 + j * 50)) None)
                     [0..<page_count (?n - (s + 50)) 50]
          = tr @ map (\<lambda>j. Call (Search_v2 (s + j * 50)) None)
                     [0..<Suc (page_count (?n - (s + 50)) 50)]"
      using map_upt_shift [of "\<lambda>j. Call (Search_v2 (s + j * 50)) None"
                              "page_count (?n - (s + 50)) 50"]
      by (simp add: add.assoc)
    have "take 50 (drop s iss) @ drop 50 (drop s iss) = drop s iss"
      by (rule append_take_drop_id)
    then have pg: "map key ?page @ map key (drop (s + 50) iss) = map key (drop s iss)"
      by (simp add: page_of_def add.commute flip: map_append)
    from k keys pg have k': "map Issue_Key rows = map Issue_Key acc @ map key (drop s iss)"
      by simp
    from r have "getAllIssues_from_v2 L c w s acc tr =
            Some (tr @ map (\<lambda>j. Call (Search_v2 (s + j * 50)) None)
                          [0..<page_count (?n - s) 50], Inr rows)"
      by (simp only: step pc tr)
    with k' show ?thesis by blast
  qed
qed

lemma distinct_offsets:
  assumes "0 < (p::nat)" and "inj f"
  shows "distinct (map (\<lambda>j. f (j * p)) [0..<m])"
proof -
  have "inj_on (\<lambda>j. f (j * p)) (set [0..<m])"
  proof (rule inj_onI)
    fix x y
    assume "f (x * p) = f (y * p)"
    with assms(2) have "x * p = y * p" by (rule injD)
    with assms(1) show "x = y" by simp
  qed
  then show ?thesis by (simp add: distinct_map)
qed

text \<open>
  What the loops do against a server that serves the page length they count on: the loop
  of \<open>fetchIssueChangelog\<close> advances by the page length the server reports, whatever it
  is, and the loop of \<^verbatim>\<open>src/index.js\<close> by 50. Each asks for \<open>max 1 (ceil (total / length))\<close>
  pages, at the offsets \<open>0\<close>, \<open>length\<close>, \<open>2 * length\<close> and so on, each once, and returns
  every item once and in order. Each asks for one page when there is no item at all.
\<close>

lemma pagination_full_pages:
  assumes w: "w = jira_world iss 50 hist hsize says_last clk" and hs: "0 < hsize"
  shows "fetchIssueChangelog w k tr =
           Some (tr @ map (\<lambda>j. Call (Changelog k (j * hsize)) None)
                          [0..<page_count (length (hist k)) hsize],
                 Inr (hist k))
       \<and> distinct (map (\<lambda>j. Call (Changelog k (j * hsize)) None)
                          [0..<page_count (length (hist k)) hsize])
       \<and> (\<exists>rows. getAllIssues_v2 L c w tr =
               Some (tr @ map (\<lambda>j. Call (Search_v2 (j * 50)) None)
                              [0..<page_count (length iss) 50], Inr rows)
             \<and> map Issue_Key rows = map key iss)
       \<and> distinct (map (\<lambda>j. Call (Search_v2 (j * 50)) None)
                          [0..<page_count (length iss) 50])"
proof -
  have s2: "search_v2 w = search_server_v2 iss 50"
    and sc: "changelog_page w = changelog_server hist hsize says_last"
    by (simp_all add: w jira_world_def)
  have a: "fetchIssueChangelog w k tr =
           Some (tr @ map (\<lambda>j. Call (Changelog k (j * hsize)) None)
                          [0..<page_count (length (hist k)) hsize],
                 Inr (hist k))"
    by (rule fetchIssueChangelog_pages [OF hs sc])
  have a': "distinct (map (\<lambda>j. Call (Changelog k (j * hsize)) None)
                          [0..<page_count (length (hist k)) hsize])"
    by (rule distinct_offsets [OF hs, of "\<lambda>x. Call (Changelog k x) None"]) (simp add: inj_on_def)
  have c: "\<exists>rows. getAllIssues_v2 L c w tr =
               Some (tr @ map (\<lambda>j. Call (Search_v2 (j * 50)) None)
                              [0..<page_count (length iss) 50], Inr rows)
             \<and> map Issue_Key rows = map key iss"
    using getAllIssues_from_v2_pages [OF s2, of L c 0 "[]" tr]
    by (simp add: getAllIssues_v2_def)
  have c': "distinct (map (\<lambda>j. Call (Search_v2 (j * 50)) None)
                          [0..<page_count (length iss) 50])"
    by (rule distinct_offsets [of 50 "\<lambda>x. Call (Search_v2 x) None"]) (simp_all add: inj_on_def)
  from a a' c c' show ?thesis by blast
qed

lemma pagination_empty:
  "fetchIssueChangelog empty_world ''MIS-1'' [] = Some ([Call (Changelog ''MIS-1'' 0) None], Inr [])
   \<and> getAllIssues_v3 empty_world [] = Some ([Call (Search_v3 None) None], Inr [])
   \<and> getAllIssues_v2 utc_lib (sample_config ''2024-12-31'') empty_world []
       = Some ([Call (Search_v2 0) None], Inr [])
   \<and> ceil_div 0 100 = 0 \<and> ceil_div 0 50 = 0"
  by (simp add: run_defs empty_world_def fetchIssueChangelog_from.simps
        getAllIssues_from_v3.simps getAllIssues_from_v2.simps withRetry_from.simps ceil_div_def)

text \<open>
  The loop of \<open>fetchIssueChangelog\<close> counts on \<open>maxResults\<close> of the answer being the page
  length served: against an endpoint that reports the length asked for and serves less,
  without \<open>isLast\<close>, it stops after the first page.
\<close>

lemma changelog_echo_skips:
  "fetchIssueChangelog echo_world ''MIS-1'' []
     = Some ([Call (Changelog ''MIS-1'' 0) None], Inr (take 2 demo_history))"
  by (simp add: fetchIssueChangelog_def fetchIssueChangelog_from.simps withRetry_def
        withRetry_from.simps http_def failure_of_def echo_world_def page_of_def)

text \<open>
  Claim C5. A server that holds three issues and serves two per page. The loop of
  \<^verbatim>\<open>src/index.js\<close> asks for the page at offset 0, adds 50 to the offset whatever the length
  of the page it got, finds 50 not below the total 3, and ends: one request where the
  claim has two, and the third issue is in no row. The loop of \<^verbatim>\<open>src/unnamed/part_000\<close>
  over the pages of the search ends on its first page with the \<open>ReferenceError\<close> and
  returns no issue at all. The loop of \<open>fetchIssueChangelog\<close>, which advances by the
  page length of the answer, gets the five entries of a changelog served two per page in
  three requests.
\<close>

theorem pagination_skips_short_pages:
  "map_option (\<lambda>(tr, res). (tr, map_sum id (map Issue_Key) res))
       (getAllIssues_v2 utc_lib (sample_config ''2024-12-31'') paged_world [])
     = Some ([Call (Search_v2 0) None], Inr [''MIS-1'', ''MIS-2''])
   \<and> map key three_issues = [''MIS-1'', ''MIS-2'', ''MIS-3'']
   \<and> ceil_div (length three_issues) 2 = 2
   \<and> getAllIssues_v3 paged_world [] = Some ([Call (Search_v3 None) None], Inl ReferenceError)
   \<and> fetchIssueChangelog paged_world ''MIS-1'' [] =
       Some ([Call (Changelog ''MIS-1'' 0) None, Call (Changelog ''MIS-1'' 2) None,
              Call (Changelog ''MIS-1'' 4) None], Inr demo_history)"
proof -
  let ?c = "sample_config ''2024-12-31''"
  have pg: "page_of three_issues 0 2 = [sample_issue, sample_issue\<lparr>key := ''MIS-2''\<rparr>]"
    by (simp add: page_of_def three_issues_def)
  have g2: "getAllIssues_v2 utc_lib ?c paged_world []
     = Some ([Call (Search_v2 0) None],
             Inr (process_page_v2 utc_lib ?c paged_world 1
                    [sample_issue, sample_issue\<lparr>key := ''MIS-2''\<rparr>] []))"
    by (simp add: getAllIssues_v2_def getAllIssues_from_v2.simps fetchIssues_v2_def http_def
          failure_of_def paged_world_def jira_world_def search_server_v2_def pg)
       (simp add: three_issues_def)
  have keys: "map Issue_Key (process_page_v2 utc_lib ?c paged_world 1
                    [sample_issue, sample_issue\<lparr>key := ''MIS-2''\<rparr>] []) = [''MIS-1'', ''MIS-2'']"
    by (simp add: Issue_Key_page_v2 sample_issue_def)
  have a: "map_option (\<lambda>(tr, res). (tr, map_sum id (map Issue_Key) res))
       (getAllIssues_v2 utc_lib ?c paged_world [])
     = Some ([Call (Search_v2 0) None], Inr [''MIS-1'', ''MIS-2''])"
    unfolding g2 using keys by simp
  have b: "map key three_issues = [''MIS-1'', ''MIS-2'', ''MIS-3'']"
    by (simp add: three_issues_def sample_issue_def)
  have d: "ceil_div (length three_issues) 2 = 2"
    by (simp add: ceil_div_eq three_issues_def)
  have g3: "getAllIssues_v3 paged_world [] = Some ([Call (Search_v3 None) None], Inl ReferenceError)"
    by (simp add: run_defs paged_world_def getAllIssues_from_v3.simps withRetry_from.simps
          three_issues_def)
  have pc: "page_count 5 2 = 3" by (simp add: page_count_def ceil_div_eq)
  have len: "length demo_history = 5" by (simp add: demo_history_def)
  have upt: "[0..<3] = [0, 1, 2]" by (simp add: upt_rec)
  have srv: "changelog_page paged_world = changelog_server (\<lambda>k. demo_history) 2 True"
    by (simp add: paged_world_def jira_world_def)
  have e: "fetchIssueChangelog paged_world ''MIS-1'' [] =
       Some ([Call (Changelog ''MIS-1'' 0) None, Call (Changelog ''MIS-1'' 2) None,
              Call (Changelog ''MIS-1'' 4) None], Inr demo_history)"
    using fetchIssueChangelog_pages [OF _ srv, of "''MIS-1''" "[]"]
    by (simp add: pc len upt)
  from a b d g3 e show ?thesis by blast
qed

end
